theory Spec2Isabelle
  imports Complex_Main
begin

section \<open>Directional Young's modulus of a cubic crystal\<close>

text \<open>
  The program evaluates \<open>1/E(n) = S11 - 2 (S11 - S12 - S44/2) (n1\<^sup>2 n2\<^sup>2 + n2\<^sup>2 n3\<^sup>2 + n3\<^sup>2 n1\<^sup>2)\<close>
  on a latitude-longitude grid and colours the radial surface by the value of \<open>E\<close>.

  Numbers: the evaluator is read twice.  In the first reading Python floats are real
  numbers, so \<open>sin\<close>, \<open>cos\<close> and \<open>pi\<close> are the exact functions and constant; it serves the
  properties that are stated in exact real arithmetic or that the doubles share up to
  rounding.  The one place where exact arithmetic itself has no value, a division by zero
  (NumPy gives \<open>inf\<close> or \<open>nan\<close> there), is a branch of its own there, \<open>DivideByZero\<close>.
  The second reading, \<open>directional_E_cubic_from_S_fp\<close> below, adds what doubles do
  differently in kind: overflow to infinity, NaN, and \<open>np.pi\<close> as the double it is.  It
  serves the properties about finiteness and about the cells at the poles.
  A 2D array is the list of its rows (first index = first axis).
\<close>

datatype py_error = ValueError | KeyError | DivideByZero

type_synonym array2d = "real list list"

subsection \<open>The array primitives the program calls\<close>

text \<open>
  \<open>np.linspace(start, stop, num)\<close> with its default \<open>endpoint=True\<close>: a negative \<open>num\<close>
  raises \<open>ValueError\<close>; otherwise \<open>num\<close> values \<open>i * step + start\<close> with
  \<open>step = (stop - start) / (num - 1)\<close>, the last one overwritten by \<open>stop\<close> when \<open>num > 1\<close>;
  for \<open>num = 1\<close> the single value is \<open>start\<close>.
\<close>

definition linspace :: "real \<Rightarrow> real \<Rightarrow> int \<Rightarrow> py_error + real list" where
  "linspace start stop num =
     (if num < 0 then Inl ValueError
      else
        let n = nat num;
            delta = stop - start;
            y = (if 1 < n then map (\<lambda>i. real i * (delta / real (n - 1))) [0..<n]
                 else map (\<lambda>i. real i * delta) [0..<n]);
            y = map (\<lambda>v. v + start) y
        in Inr (if 1 < n then y[n - 1 := stop] else y))"

text \<open>
  \<open>np.meshgrid(x, y)\<close> with its default \<open>indexing='xy'\<close>: both results have shape
  \<open>(len(y), len(x))\<close>; the first repeats \<open>x\<close> in every row, the second holds \<open>y[i]\<close>
  throughout row \<open>i\<close>.
\<close>

definition meshgrid :: "real list \<Rightarrow> real list \<Rightarrow> array2d \<times> array2d" where
  "meshgrid xs ys = (map (\<lambda>y. xs) ys, map (\<lambda>y. map (\<lambda>x. y) xs) ys)"

text \<open>Elementwise functions of one array, and of two arrays of the same shape.\<close>

definition ufunc :: "(real \<Rightarrow> real) \<Rightarrow> array2d \<Rightarrow> array2d" where
  "ufunc f A = map (map f) A"

definition ufunc2 :: "(real \<Rightarrow> real \<Rightarrow> real) \<Rightarrow> array2d \<Rightarrow> array2d \<Rightarrow> array2d" where
  "ufunc2 f A B = map2 (map2 f) A B"

text \<open>\<open>c / A\<close> for a scalar \<open>c\<close>: a zero entry of \<open>A\<close> has no real quotient.\<close>

definition true_divide :: "real \<Rightarrow> array2d \<Rightarrow> py_error + array2d" where
  "true_divide c A =
     (if list_ex (list_ex (\<lambda>x. x = 0)) A then Inl DivideByZero
      else Inr (ufunc (\<lambda>x. c / x) A))"

text \<open>\<open>A.min()\<close> and \<open>A.max()\<close>: \<open>ValueError\<close> on an array without entries.\<close>

definition amin :: "array2d \<Rightarrow> py_error + real" where
  "amin A = (case concat A of [] \<Rightarrow> Inl ValueError | x # xs \<Rightarrow> Inr (fold min xs x))"

definition amax :: "array2d \<Rightarrow> py_error + real" where
  "amax A = (case concat A of [] \<Rightarrow> Inl ValueError | x # xs \<Rightarrow> Inr (fold max xs x))"

text \<open>
  Calling a \<open>matplotlib.colors.Normalize(vmin, vmax)\<close> object on an array: the library maps
  every value to \<open>0\<close> when \<open>vmin = vmax\<close>, raises \<open>ValueError\<close> when \<open>vmin > vmax\<close>, and returns
  \<open>(x - vmin) / (vmax - vmin)\<close> otherwise.
\<close>

definition Normalize :: "real \<Rightarrow> real \<Rightarrow> array2d \<Rightarrow> py_error + array2d" where
  "Normalize vmin vmax A =
     (if vmin = vmax then Inr (ufunc (\<lambda>x. 0) A)
      else if vmin > vmax then Inl ValueError
      else Inr (ufunc (\<lambda>x. (x - vmin) / (vmax - vmin)) A))"

subsection \<open>The field evaluator\<close>

text \<open>The angular grids of \<open>directional_E_cubic_from_S\<close>: \<open>theta\<close>, \<open>phi\<close> and their mesh \<open>T\<close>, \<open>P\<close>.\<close>

definition angular_grid ::
  "int \<Rightarrow> py_error + (real list \<times> real list \<times> array2d \<times> array2d)" where
  "angular_grid samples =
     (case linspace 0 pi samples of
        Inl e \<Rightarrow> Inl e
      | Inr theta \<Rightarrow>
          (case linspace 0 (2 * pi) samples of
             Inl e \<Rightarrow> Inl e
           | Inr phi \<Rightarrow>
               (case meshgrid theta phi of (T, P) \<Rightarrow> Inr (theta, phi, T, P))))"

definition directional_E_cubic_from_S ::
  "real \<Rightarrow> real \<Rightarrow> real \<Rightarrow> int \<Rightarrow> py_error + (array2d \<times> array2d \<times> array2d \<times> array2d)" where
  "directional_E_cubic_from_S S11 S12 S44 samples =
     (case angular_grid samples of
        Inl e \<Rightarrow> Inl e
      | Inr (theta, phi, T, P) \<Rightarrow>
          let ax = ufunc2 (*) (ufunc sin T) (ufunc cos P);
              ay = ufunc2 (*) (ufunc sin T) (ufunc sin P);
              az = ufunc cos T;
              n1_2 = ufunc (\<lambda>x. x\<^sup>2) ax;
              n2_2 = ufunc (\<lambda>x. x\<^sup>2) ay;
              n3_2 = ufunc (\<lambda>x. x\<^sup>2) az;
              I2 = ufunc2 (+) (ufunc2 (+) (ufunc2 (*) n1_2 n2_2) (ufunc2 (*) n2_2 n3_2))
                     (ufunc2 (*) n3_2 n1_2);
              Einv = ufunc (\<lambda>x. S11 - x) (ufunc (\<lambda>x. 2 * (S11 - S12 - 1 / 2 * S44) * x) I2);
              Einv = ufunc (\<lambda>x. max x (1 / 10 ^ 16)) Einv
          in (case true_divide 1 Einv of
                Inl e \<Rightarrow> Inl e
              | Inr E \<Rightarrow> Inr (E, ax, ay, az)))"

text \<open>
  What the evaluator computes in one grid cell, from the direction cosines of the cell:
  the invariant \<open>I2\<close>, and the modulus as a function of \<open>I2\<close> (formula, floor, reciprocal).
  Lemma \<open>directional_E_closed\<close> below proves that every entry of the returned field is
  \<open>E_cell\<close> of the direction cosines returned for the same cell.
\<close>

definition I2_cell :: "real \<Rightarrow> real \<Rightarrow> real \<Rightarrow> real" where
  "I2_cell n1 n2 n3 =
     (let n1_2 = n1\<^sup>2; n2_2 = n2\<^sup>2; n3_2 = n3\<^sup>2
      in n1_2 * n2_2 + n2_2 * n3_2 + n3_2 * n1_2)"

definition E_of_I2 :: "real \<Rightarrow> real \<Rightarrow> real \<Rightarrow> real \<Rightarrow> real" where
  "E_of_I2 S11 S12 S44 I2 =
     (let Einv = S11 - 2 * (S11 - S12 - 1 / 2 * S44) * I2;
          Einv = max Einv (1 / 10 ^ 16)
      in 1 / Einv)"

definition E_cell :: "real \<Rightarrow> real \<Rightarrow> real \<Rightarrow> real \<Rightarrow> real \<Rightarrow> real \<Rightarrow> real" where
  "E_cell S11 S12 S44 n1 n2 n3 = E_of_I2 S11 S12 S44 (I2_cell n1 n2 n3)"

text \<open>An \<open>n \<times> n\<close> array given by its cells, to state what the evaluator returns.\<close>

definition table :: "nat \<Rightarrow> (nat \<Rightarrow> nat \<Rightarrow> 'a) \<Rightarrow> 'a list list" where
  "table n f = map (\<lambda>i. map (\<lambda>j. f i j) [0..<n]) [0..<n]"

subsection \<open>The surface colours\<close>

text \<open>
  \<open>plot_young_surface_colored\<close> up to the colours it hands to the renderer: the
  normalisation over \<open>[E.min(), E.max()]\<close>, the colormap looked up by name in the registry
  \<open>colormaps\<close> (\<open>KeyError\<close> for an unknown name), and the colormap applied to the
  normalised field.  A colormap is a function from the normalised value to a colour; the
  registry is a parameter.  Drawing and saving the figure are not modelled.
\<close>

definition plot_young_surface_colored ::
  "(string \<rightharpoonup> (real \<Rightarrow> 'c)) \<Rightarrow> array2d \<Rightarrow> array2d \<Rightarrow> array2d \<Rightarrow> array2d \<Rightarrow>
     string \<Rightarrow> string \<Rightarrow> string \<Rightarrow> py_error + 'c list list" where
  "plot_young_surface_colored colormaps E ax ay az title cmap_name outfile =
     (case amin E of
        Inl e \<Rightarrow> Inl e
      | Inr lo \<Rightarrow>
          (case amax E of
             Inl e \<Rightarrow> Inl e
           | Inr hi \<Rightarrow>
               (case colormaps cmap_name of
                  None \<Rightarrow> Inl KeyError
                | Some cmap \<Rightarrow>
                    (case Normalize lo hi E of
                       Inl e \<Rightarrow> Inl e
                     | Inr normed \<Rightarrow> Inr (map (map cmap) normed)))))"

subsection \<open>The command line\<close>

record args =
  arg_material :: string
  arg_S11 :: real
  arg_S12 :: real
  arg_S44 :: real
  arg_samples :: int
  arg_cmap :: string

text \<open>
  \<open>main\<close> after argument parsing.  The result is what was printed, the field computed by
  the evaluator, and the outcome of the plot.
\<close>

definition main ::
  "(string \<rightharpoonup> (real \<Rightarrow> 'c)) \<Rightarrow> args \<Rightarrow>
     string list \<times> (py_error + (array2d \<times> array2d \<times> array2d \<times> array2d)) \<times> (py_error + 'c list list)" where
  "main colormaps a =
     (let graph_title = arg_material a @ '' - Young's Modulus (GPa)'';
          printed =
            (if \<not> (arg_S11 a > 0 \<and> arg_S44 a > 0 \<and>
                    (arg_S11 a - arg_S12 a) > 0 \<and>
                    (arg_S11 a + 2 * arg_S12 a) > 0)
             then [''Warning: Compliance values may violate cubic stability conditions.'',
                   ''Check that S11 > 0, S44 > 0, S11 - S12 > 0, and S11 + 2*S12 > 0'']
             else []);
          field = directional_E_cubic_from_S (arg_S11 a) (arg_S12 a) (arg_S44 a) (arg_samples a)
      in (printed, field,
          (case field of
             Inl e \<Rightarrow> Inl e
           | Inr (E, ax, ay, az) \<Rightarrow>
               plot_young_surface_colored colormaps E ax ay az graph_title (arg_cmap a) graph_title)))"

subsection \<open>The evaluator on IEEE doubles\<close>

text \<open>
  For the properties that depend on what a double is, the evaluator is read a second time
  with the doubles' own behaviour where it differs in kind from real arithmetic:
  \<^item> a value whose magnitude reaches the overflow threshold \<open>2\<^sup>1\<^sup>0\<^sup>2\<^sup>4 - 2\<^sup>9\<^sup>7\<^sup>0\<close> becomes an
    infinity, and infinities and NaN follow the IEEE 754 rules (\<open>inf * 0\<close> and \<open>inf - inf\<close>
    are NaN, \<open>x / inf\<close> is \<open>0\<close>, \<open>np.maximum\<close> returns NaN when an argument is NaN);
  \<^item> \<open>np.pi\<close> is the double nearest to \<open>\<pi>\<close>, the rational \<open>884279719003555 / 2\<^sup>4\<^sup>8\<close>.
  Rounding of results inside the range is still not modelled, and a zero divisor counts as
  \<open>+0\<close>.  The compliances are finite doubles, given as reals.  The direction cosines and
  \<open>I2\<close> are bounded by \<open>3\<close> in magnitude and stay real numbers.
\<close>

datatype npfloat = Fin real | PInf | NInf | NaN

definition overflow_threshold :: real where
  "overflow_threshold = 2 ^ 1024 - 2 ^ 970"

definition fl :: "real \<Rightarrow> npfloat" where
  "fl x = (if overflow_threshold \<le> x then PInf
           else if x \<le> - overflow_threshold then NInf
           else Fin x)"

fun fsub :: "npfloat \<Rightarrow> npfloat \<Rightarrow> npfloat" where
  "fsub NaN b = NaN"
| "fsub (Fin x) NaN = NaN"
| "fsub PInf NaN = NaN"
| "fsub NInf NaN = NaN"
| "fsub (Fin x) (Fin y) = fl (x - y)"
| "fsub (Fin x) PInf = NInf"
| "fsub (Fin x) NInf = PInf"
| "fsub PInf (Fin y) = PInf"
| "fsub NInf (Fin y) = NInf"
| "fsub PInf PInf = NaN"
| "fsub NInf NInf = NaN"
| "fsub PInf NInf = PInf"
| "fsub NInf PInf = NInf"

fun fmul :: "npfloat \<Rightarrow> npfloat \<Rightarrow> npfloat" where
  "fmul NaN b = NaN"
| "fmul (Fin x) NaN = NaN"
| "fmul PInf NaN = NaN"
| "fmul NInf NaN = NaN"
| "fmul (Fin x) (Fin y) = fl (x * y)"
| "fmul (Fin x) PInf = (if x = 0 then NaN else if 0 < x then PInf else NInf)"
| "fmul (Fin x) NInf = (if x = 0 then NaN else if 0 < x then NInf else PInf)"
| "fmul PInf (Fin y) = (if y = 0 then NaN else if 0 < y then PInf else NInf)"
| "fmul NInf (Fin y) = (if y = 0 then NaN else if 0 < y then NInf else PInf)"
| "fmul PInf PInf = PInf"
| "fmul NInf NInf = PInf"
| "fmul PInf NInf = NInf"
| "fmul NInf PInf = NInf"

text \<open>\<open>np.maximum\<close>: the larger argument, NaN as soon as one argument is NaN.\<close>

fun fmaximum :: "npfloat \<Rightarrow> npfloat \<Rightarrow> npfloat" where
  "fmaximum NaN b = NaN"
| "fmaximum (Fin x) NaN = NaN"
| "fmaximum PInf NaN = NaN"
| "fmaximum NInf NaN = NaN"
| "fmaximum (Fin x) (Fin y) = Fin (max x y)"
| "fmaximum (Fin x) PInf = PInf"
| "fmaximum (Fin x) NInf = Fin x"
| "fmaximum PInf (Fin y) = PInf"
| "fmaximum NInf (Fin y) = Fin y"
| "fmaximum PInf PInf = PInf"
| "fmaximum NInf NInf = NInf"
| "fmaximum PInf NInf = PInf"
| "fmaximum NInf PInf = PInf"

fun fdiv :: "npfloat \<Rightarrow> npfloat \<Rightarrow> npfloat" where
  "fdiv NaN b = NaN"
| "fdiv (Fin x) NaN = NaN"
| "fdiv PInf NaN = NaN"
| "fdiv NInf NaN = NaN"
| "fdiv (Fin x) (Fin y) =
     (if y = 0 then (if x = 0 then NaN else if 0 < x then PInf else NInf) else fl (x / y))"
| "fdiv (Fin x) PInf = Fin 0"
| "fdiv (Fin x) NInf = Fin 0"
| "fdiv PInf (Fin y) = (if 0 \<le> y then PInf else NInf)"
| "fdiv NInf (Fin y) = (if 0 \<le> y then NInf else PInf)"
| "fdiv PInf PInf = NaN"
| "fdiv NInf NInf = NaN"
| "fdiv PInf NInf = NaN"
| "fdiv NInf PInf = NaN"

definition np_pi :: real where
  "np_pi = 884279719003555 / 2 ^ 48"

definition angular_grid_fp ::
  "int \<Rightarrow> py_error + (real list \<times> real list \<times> array2d \<times> array2d)" where
  "angular_grid_fp samples =
     (case linspace 0 np_pi samples of
        Inl e \<Rightarrow> Inl e
      | Inr theta \<Rightarrow>
          (case linspace 0 (2 * np_pi) samples of
             Inl e \<Rightarrow> Inl e
           | Inr phi \<Rightarrow>
               (case meshgrid theta phi of (T, P) \<Rightarrow> Inr (theta, phi, T, P))))"

definition directional_E_cubic_from_S_fp ::
  "real \<Rightarrow> real \<Rightarrow> real \<Rightarrow> int \<Rightarrow>
     py_error + (npfloat list list \<times> array2d \<times> array2d \<times> array2d)" where
  "directional_E_cubic_from_S_fp S11 S12 S44 samples =
     (case angular_grid_fp samples of
        Inl e \<Rightarrow> Inl e
      | Inr (theta, phi, T, P) \<Rightarrow>
          let ax = ufunc2 (*) (ufunc sin T) (ufunc cos P);
              ay = ufunc2 (*) (ufunc sin T) (ufunc sin P);
              az = ufunc cos T;
              n1_2 = ufunc (\<lambda>x. x\<^sup>2) ax;
              n2_2 = ufunc (\<lambda>x. x\<^sup>2) ay;
              n3_2 = ufunc (\<lambda>x. x\<^sup>2) az;
              I2 = ufunc2 (+) (ufunc2 (+) (ufunc2 (*) n1_2 n2_2) (ufunc2 (*) n2_2 n3_2))
                     (ufunc2 (*) n3_2 n1_2);
              c = fmul (Fin 2) (fsub (fsub (Fin S11) (Fin S12)) (fmul (Fin (1 / 2)) (Fin S44)));
              Einv = map (map (\<lambda>x. fsub (Fin S11) x)) (map (map (\<lambda>x. fmul c (Fin x))) I2);
              Einv = map (map (\<lambda>x. fmaximum x (Fin (1 / 10 ^ 16)))) Einv;
              E = map (map (\<lambda>x. fdiv (Fin 1) x)) Einv
          in Inr (E, ax, ay, az))"

text \<open>The same computation in one grid cell, as a function of the cell's \<open>I2\<close>.\<close>

definition E_of_I2_fp :: "real \<Rightarrow> real \<Rightarrow> real \<Rightarrow> real \<Rightarrow> npfloat" where
  "E_of_I2_fp S11 S12 S44 I2 =
     (let c = fmul (Fin 2) (fsub (fsub (Fin S11) (Fin S12)) (fmul (Fin (1 / 2)) (Fin S44)));
          Einv = fsub (Fin S11) (fmul c (Fin I2));
          Einv = fmaximum Einv (Fin (1 / 10 ^ 16))
      in fdiv (Fin 1) Einv)"

section \<open>The evaluator, cell by cell\<close>

lemma map2_same_source:
  "map2 f (map g xs) (map h xs) = map (\<lambda>x. f (g x) (h x)) xs"
  by (induction xs) simp_all

lemma ufunc_table:
  "ufunc f (map (\<lambda>y. map (g y) xs) ys) = map (\<lambda>y. map (\<lambda>x. f (g y x)) xs) ys"
  by (simp add: ufunc_def comp_def)

lemma ufunc2_table:
  "ufunc2 f (map (\<lambda>y. map (g y) xs) ys) (map (\<lambda>y. map (h y) xs) ys)
     = map (\<lambda>y. map (\<lambda>x. f (g y x) (h y x)) xs) ys"
  by (simp add: ufunc2_def map2_same_source)

lemma ufunc_rows:
  "ufunc f (map (\<lambda>y. xs) ys) = map (\<lambda>y. map f xs) ys"
  by (simp add: ufunc_def comp_def)

lemma true_divide_floor:
  "true_divide c (map (\<lambda>y. map (\<lambda>x. max (g y x) (1 / 10 ^ 16)) xs) ys)
     = Inr (map (\<lambda>y. map (\<lambda>x. c / max (g y x) (1 / 10 ^ 16)) xs) ys)"
proof -
  have pos: "max (g y x) (1 / 10 ^ 16) \<noteq> 0" for y x
  proof -
    have "(0::real) < 1 / 10 ^ 16" by simp
    then have "0 < max (g y x) (1 / 10 ^ 16)" by (simp only: less_max_iff_disj simp_thms)
    then show ?thesis by simp
  qed
  have "\<not> list_ex (list_ex (\<lambda>x. x = 0)) (map (\<lambda>y. map (\<lambda>x. max (g y x) (1 / 10 ^ 16)) xs) ys)"
    using pos by (auto simp: list_ex_iff)
  then show ?thesis
    by (simp only: true_divide_def ufunc_table if_False)
qed

lemma directional_E_table:
  assumes "linspace 0 pi samples = Inr theta" and "linspace 0 (2 * pi) samples = Inr phi"
  shows "directional_E_cubic_from_S S11 S12 S44 samples =
           Inr (map (\<lambda>p. map (\<lambda>t. E_cell S11 S12 S44 (sin t * cos p) (sin t * sin p) (cos t)) theta) phi,
                map (\<lambda>p. map (\<lambda>t. sin t * cos p) theta) phi,
                map (\<lambda>p. map (\<lambda>t. sin t * sin p) theta) phi,
                map (\<lambda>p. map (\<lambda>t. cos t) theta) phi)"
proof -
  define T where "T = map (\<lambda>p::real. theta) phi"
  define P where "P = map (\<lambda>p. map (\<lambda>t::real. p) theta) phi"
  have grid: "angular_grid samples = Inr (theta, phi, T, P)"
    by (simp add: angular_grid_def assms meshgrid_def T_def P_def)
  have sinT: "ufunc sin T = map (\<lambda>p. map (\<lambda>t. sin t) theta) phi"
    by (simp add: T_def ufunc_rows)
  have cosT: "ufunc cos T = map (\<lambda>p. map (\<lambda>t. cos t) theta) phi"
    by (simp add: T_def ufunc_rows)
  have sinP: "ufunc sin P = map (\<lambda>p. map (\<lambda>t. sin p) theta) phi"
    by (simp add: P_def ufunc_table)
  have cosP: "ufunc cos P = map (\<lambda>p. map (\<lambda>t. cos p) theta) phi"
    by (simp add: P_def ufunc_table)
  have ax: "ufunc2 (*) (ufunc sin T) (ufunc cos P) = map (\<lambda>p. map (\<lambda>t. sin t * cos p) theta) phi"
    by (simp only: sinT cosP ufunc2_table)
  have ay: "ufunc2 (*) (ufunc sin T) (ufunc sin P) = map (\<lambda>p. map (\<lambda>t. sin t * sin p) theta) phi"
    by (simp only: sinT sinP ufunc2_table)
  have I2: "ufunc2 (+)
              (ufunc2 (+)
                 (ufunc2 (*) (ufunc (\<lambda>x. x\<^sup>2) (ufunc2 (*) (ufunc sin T) (ufunc cos P)))
                    (ufunc (\<lambda>x. x\<^sup>2) (ufunc2 (*) (ufunc sin T) (ufunc sin P))))
                 (ufunc2 (*) (ufunc (\<lambda>x. x\<^sup>2) (ufunc2 (*) (ufunc sin T) (ufunc sin P)))
                    (ufunc (\<lambda>x. x\<^sup>2) (ufunc cos T))))
              (ufunc2 (*) (ufunc (\<lambda>x. x\<^sup>2) (ufunc cos T))
                 (ufunc (\<lambda>x. x\<^sup>2) (ufunc2 (*) (ufunc sin T) (ufunc cos P))))
            = map (\<lambda>p. map (\<lambda>t. I2_cell (sin t * cos p) (sin t * sin p) (cos t)) theta) phi"
    by (simp only: ax ay cosT ufunc_table ufunc2_table I2_cell_def Let_def)
  have E: "true_divide 1
             (ufunc (\<lambda>x. max x (1 / 10 ^ 16))
                (ufunc (\<lambda>x. S11 - x)
                   (ufunc (\<lambda>x. 2 * (S11 - S12 - 1 / 2 * S44) * x)
                      (map (\<lambda>p. map (\<lambda>t. I2_cell (sin t * cos p) (sin t * sin p) (cos t)) theta) phi))))
           = Inr (map (\<lambda>p. map (\<lambda>t. E_cell S11 S12 S44 (sin t * cos p) (sin t * sin p) (cos t)) theta) phi)"
    by (simp only: ufunc_table true_divide_floor E_cell_def E_of_I2_def Let_def)
  show ?thesis
    unfolding directional_E_cubic_from_S_def
    by (simp only: grid sum.case prod.case Let_def I2 E) (simp only: ax ay cosT)
qed


lemma linspace_closed:
  assumes "2 \<le> num"
  shows "linspace a b num =
           Inr (map (\<lambda>i. a + real i * (b - a) / real (nat num - 1)) [0..<nat num])"
proof -
  define n where "n = nat num"
  have n: "1 < n" using assms by (simp add: n_def)
  have "(map (\<lambda>v. v + a) (map (\<lambda>i. real i * ((b - a) / real (n - 1))) [0..<n]))[n - 1 := b]
          = map (\<lambda>i. a + real i * (b - a) / real (n - 1)) [0..<n]"
  proof (rule nth_equalityI)
    show "length ((map (\<lambda>v. v + a) (map (\<lambda>i. real i * ((b - a) / real (n - 1))) [0..<n]))[n - 1 := b])
            = length (map (\<lambda>i. a + real i * (b - a) / real (n - 1)) [0..<n])"
      by simp
  next
    fix i
    assume "i < length ((map (\<lambda>v. v + a) (map (\<lambda>i. real i * ((b - a) / real (n - 1))) [0..<n]))[n - 1 := b])"
    then have i: "i < n" by simp
    show "(map (\<lambda>v. v + a) (map (\<lambda>i. real i * ((b - a) / real (n - 1))) [0..<n]))[n - 1 := b] ! i
            = map (\<lambda>i. a + real i * (b - a) / real (n - 1)) [0..<n] ! i"
    proof (cases "i = n - 1")
      case True
      have "real (n - 1) \<noteq> 0" using n by simp
      then have "a + real (n - 1) * (b - a) / real (n - 1) = b" by simp
      with True i n show ?thesis by simp
    next
      case False
      with i show ?thesis by (simp add: add.commute)
    qed
  qed
  with assms n show ?thesis
    by (simp add: linspace_def Let_def n_def)
qed

lemma linspace_total:
  assumes "0 \<le> num"
  shows "\<exists>xs. linspace a b num = Inr xs \<and> length xs = nat num"
  using assms by (simp add: linspace_def Let_def)

lemma length_table [simp]: "length (table n f) = n"
  by (simp add: table_def)

lemma length_table_row [simp]: "i < n \<Longrightarrow> length (table n f ! i) = n"
  by (simp add: table_def)

lemma table_nth [simp]: "i < n \<Longrightarrow> j < n \<Longrightarrow> table n f ! i ! j = f i j"
  by (simp add: table_def)

lemma table_of_maps:
  "map (\<lambda>y. map (\<lambda>x. f x y) (map g [0..<n])) (map h [0..<n]) = table n (\<lambda>i j. f (g j) (h i))"
  by (simp add: table_def comp_def)

lemma directional_E_closed:
  assumes "2 \<le> samples"
  shows "directional_E_cubic_from_S S11 S12 S44 samples =
           Inr (table (nat samples) (\<lambda>i j.
                  E_cell S11 S12 S44
                    (sin (real j * pi / real (nat samples - 1))
                       * cos (real i * (2 * pi) / real (nat samples - 1)))
                    (sin (real j * pi / real (nat samples - 1))
                       * sin (real i * (2 * pi) / real (nat samples - 1)))
                    (cos (real j * pi / real (nat samples - 1)))),
                table (nat samples) (\<lambda>i j.
                  sin (real j * pi / real (nat samples - 1))
                    * cos (real i * (2 * pi) / real (nat samples - 1))),
                table (nat samples) (\<lambda>i j.
                  sin (real j * pi / real (nat samples - 1))
                    * sin (real i * (2 * pi) / real (nat samples - 1))),
                table (nat samples) (\<lambda>i j. cos (real j * pi / real (nat samples - 1))))"
proof -
  have th: "linspace 0 pi samples
              = Inr (map (\<lambda>j. real j * pi / real (nat samples - 1)) [0..<nat samples])"
    using linspace_closed [OF assms, of 0 pi] by simp
  have ph: "linspace 0 (2 * pi) samples
              = Inr (map (\<lambda>i. real i * (2 * pi) / real (nat samples - 1)) [0..<nat samples])"
    using linspace_closed [OF assms, of 0 "2 * pi"] by simp
  show ?thesis
    by (simp only: directional_E_table [OF th ph] table_of_maps)
qed

lemma E_of_I2_bounds: "0 < E_of_I2 S11 S12 S44 x \<and> E_of_I2 S11 S12 S44 x \<le> 10 ^ 16"
proof -
  define m where "m = max (S11 - 2 * (S11 - S12 - 1 / 2 * S44) * x) (1 / 10 ^ 16)"
  have lo: "1 / 10 ^ 16 \<le> m" by (simp add: m_def)
  have pos: "0 < m" by (rule less_le_trans [OF _ lo]) simp
  have "1 / m \<le> 1 / (1 / 10 ^ 16)"
    by (rule divide_left_mono [OF lo]) (use pos in simp_all)
  then have "1 / m \<le> 10 ^ 16" by simp
  moreover have "0 < 1 / m" using pos by simp
  ultimately show ?thesis by (simp add: E_of_I2_def Let_def m_def)
qed

lemma unit_sphere_point: "(sin t * cos p)\<^sup>2 + (sin t * sin p)\<^sup>2 + (cos t)\<^sup>2 = (1::real)"
proof -
  have "(sin t * cos p)\<^sup>2 + (sin t * sin p)\<^sup>2 = (sin t)\<^sup>2 * ((sin p)\<^sup>2 + (cos p)\<^sup>2)"
    by (simp only: power_mult_distrib distrib_left add.commute)
  also have "\<dots> = (sin t)\<^sup>2" by simp
  finally show ?thesis by simp
qed

lemma table_row: "i < n \<Longrightarrow> table n f ! i = map (f i) [0..<n]"
  by (simp add: table_def)

lemma last_sample: "2 \<le> samples \<Longrightarrow> real (nat samples - 1) * x / real (nat samples - 1) = x"
  by simp

lemma I2_cell_pole: "I2_cell 0 0 z = 0"
  by (simp add: I2_cell_def)

lemma E_of_I2_zero: "E_of_I2 S11 S12 S44 0 = 1 / max S11 (1 / 10 ^ 16)"
  by (simp add: E_of_I2_def)

lemma E_of_I2_isotropic:
  assumes "S11 - S12 - 1 / 2 * S44 = 0"
  shows "E_of_I2 S11 S12 S44 x = 1 / max S11 (1 / 10 ^ 16)"
  unfolding E_of_I2_def Let_def assms by simp

lemma fieldI:
  assumes "directional_E_cubic_from_S S11 S12 S44 samples = Inr (E, ax, ay, az)"
    and "P E ax ay az"
  shows "\<exists>E ax ay az.
           directional_E_cubic_from_S S11 S12 S44 samples = Inr (E, ax, ay, az) \<and> P E ax ay az"
  using assms by blast

lemma angular_grid_closed:
  assumes "2 \<le> samples"
  shows "angular_grid samples =
           Inr (map (\<lambda>j. real j * pi / real (nat samples - 1)) [0..<nat samples],
                map (\<lambda>i. real i * (2 * pi) / real (nat samples - 1)) [0..<nat samples],
                table (nat samples) (\<lambda>i j. real j * pi / real (nat samples - 1)),
                table (nat samples) (\<lambda>i j. real i * (2 * pi) / real (nat samples - 1)))"
proof -
  have th: "linspace 0 pi samples
              = Inr (map (\<lambda>j. real j * pi / real (nat samples - 1)) [0..<nat samples])"
    using linspace_closed [OF assms, of 0 pi] by simp
  have ph: "linspace 0 (2 * pi) samples
              = Inr (map (\<lambda>i. real i * (2 * pi) / real (nat samples - 1)) [0..<nat samples])"
    using linspace_closed [OF assms, of 0 "2 * pi"] by simp
  show ?thesis
    by (simp add: angular_grid_def th ph meshgrid_def table_def comp_def)
qed

lemma gridI:
  assumes "angular_grid samples = Inr (theta, phi, T, P)"
    and "Q theta phi T P"
  shows "\<exists>theta phi T P. angular_grid samples = Inr (theta, phi, T, P) \<and> Q theta phi T P"
  using assms by blast

lemma I2_cell_cyclic: "I2_cell n2 n3 n1 = I2_cell n1 n2 n3"
  by (simp add: I2_cell_def Let_def mult.commute)

lemma I2_cell_flip:
  "I2_cell (- n1) n2 n3 = I2_cell n1 n2 n3"
  "I2_cell n1 (- n2) n3 = I2_cell n1 n2 n3"
  "I2_cell n1 n2 (- n3) = I2_cell n1 n2 n3"
  by (simp_all add: I2_cell_def Let_def)




lemma I2_cell_nonneg: "0 \<le> I2_cell n1 n2 n3"
  by (simp add: I2_cell_def Let_def)

lemma I2_cell_third_gap:
  assumes "n1\<^sup>2 + n2\<^sup>2 + n3\<^sup>2 = 1"
  shows "6 * (1 / 3 - I2_cell n1 n2 n3)
           = (n1\<^sup>2 - n2\<^sup>2)\<^sup>2 + (n2\<^sup>2 - n3\<^sup>2)\<^sup>2 + (n3\<^sup>2 - n1\<^sup>2)\<^sup>2"
proof -
  define a b c where "a = n1\<^sup>2" and "b = n2\<^sup>2" and "c = n3\<^sup>2"
  have s: "a + b + c = 1" using assms by (simp add: a_def b_def c_def)
  have "(a - b)\<^sup>2 + (b - c)\<^sup>2 + (c - a)\<^sup>2 = 2 * (a + b + c)\<^sup>2 - 6 * (a * b + b * c + c * a)"
    by (simp add: power2_eq_square algebra_simps)
  also have "\<dots> = 6 * (1 / 3 - (a * b + b * c + c * a))"
    by (simp add: s)
  finally show ?thesis
    by (simp add: I2_cell_def Let_def a_def b_def c_def)
qed

lemma I2_cell_le_third:
  assumes "n1\<^sup>2 + n2\<^sup>2 + n3\<^sup>2 = 1"
  shows "I2_cell n1 n2 n3 \<le> 1 / 3"
proof -
  have "0 \<le> (n1\<^sup>2 - n2\<^sup>2)\<^sup>2 + (n2\<^sup>2 - n3\<^sup>2)\<^sup>2 + (n3\<^sup>2 - n1\<^sup>2)\<^sup>2"
    by simp
  then have "0 \<le> 6 * (1 / 3 - I2_cell n1 n2 n3)"
    by (simp only: I2_cell_third_gap [OF assms])
  then show ?thesis by simp
qed



section \<open>The colour normalisation\<close>

lemma fold_min_le: "fold min xs x \<le> (x::real)"
proof (induction xs arbitrary: x)
  case Nil
  show ?case by simp
next
  case (Cons a xs)
  have "fold min xs (min a x) \<le> min a x" by (rule Cons.IH)
  then show ?case by simp
qed

lemma fold_max_ge: "(x::real) \<le> fold max xs x"
proof (induction xs arbitrary: x)
  case Nil
  show ?case by simp
next
  case (Cons a xs)
  have "max a x \<le> fold max xs (max a x)" by (rule Cons.IH)
  then show ?case by simp
qed

lemma fold_min_const: "\<forall>y\<in>set xs. y = v \<Longrightarrow> fold min xs v = (v::real)"
  by (induction xs) simp_all

lemma fold_max_const: "\<forall>y\<in>set xs. y = v \<Longrightarrow> fold max xs v = (v::real)"
  by (induction xs) simp_all

lemma amin_amax_const:
  assumes "concat E \<noteq> []" and "\<forall>x\<in>set (concat E). x = v"
  shows "amin E = Inr v" and "amax E = Inr v"
proof -
  from assms(1) obtain x xs where c: "concat E = x # xs"
    by (cases "concat E") simp_all
  with assms(2) have "x = v" and "\<forall>y\<in>set xs. y = v" by simp_all
  then show "amin E = Inr v" and "amax E = Inr v"
    by (simp_all add: amin_def amax_def c fold_min_const fold_max_const)
qed

lemma amin_le_amax:
  assumes "concat E \<noteq> []"
  shows "\<exists>lo hi. amin E = Inr lo \<and> amax E = Inr hi \<and> lo \<le> hi"
proof -
  from assms obtain x xs where c: "concat E = x # xs"
    by (cases "concat E") simp_all
  have "fold min xs x \<le> fold max xs x"
    by (rule order_trans [OF fold_min_le fold_max_ge])
  then show ?thesis
    by (simp add: amin_def amax_def c)
qed

lemma plot_total:
  assumes "concat E \<noteq> []" and "colormaps cmap_name = Some cmap"
  shows "\<exists>colors.
           plot_young_surface_colored colormaps E ax ay az title cmap_name outfile = Inr colors"
proof -
  from amin_le_amax [OF assms(1)] obtain lo hi
    where "amin E = Inr lo" and "amax E = Inr hi" and "lo \<le> hi"
    by blast
  then show ?thesis
    by (simp add: plot_young_surface_colored_def assms(2) Normalize_def)
qed

lemma concat_table_nonempty: "0 < n \<Longrightarrow> concat (table n f) \<noteq> []"
  by (cases n) (simp_all add: table_def upt_rec)

section \<open>The evaluator on doubles, cell by cell\<close>

lemma fl_Fin: "\<bar>x\<bar> \<le> 10 ^ 308 \<Longrightarrow> fl x = Fin x"
proof -
  have "(10::real) ^ 308 < overflow_threshold"
    by (simp add: overflow_threshold_def)
  then show "\<bar>x\<bar> \<le> 10 ^ 308 \<Longrightarrow> fl x = Fin x"
    by (simp add: fl_def abs_le_iff)
qed

subsection \<open>The double \<open>np.pi\<close> lies strictly below \<open>\<pi>\<close>\<close>

lemma arctan_series_bounds:
  fixes x :: real
  assumes "0 < x" and "x \<le> 1"
  shows "(\<Sum>k<2 * n. (- 1) ^ k * (1 / real (k * 2 + 1) * x ^ (k * 2 + 1))) \<le> arctan x"
    and "arctan x \<le> (\<Sum>k<2 * n + 1. (- 1) ^ k * (1 / real (k * 2 + 1) * x ^ (k * 2 + 1)))"
proof -
  have ax: "\<bar>x\<bar> \<le> 1" using assms by simp
  have a0: "0 < 1 / real (0 * 2 + 1) * x ^ (0 * 2 + 1)" using assms by simp
  from summable_Leibniz(2) [OF zeroseq_arctan_series [OF ax] monoseq_arctan_series [OF ax]] a0
  have "\<forall>n. (\<Sum>k. (- 1) ^ k * (1 / real (k * 2 + 1) * x ^ (k * 2 + 1)))
            \<in> {\<Sum>k<2 * n. (- 1) ^ k * (1 / real (k * 2 + 1) * x ^ (k * 2 + 1)) ..
               \<Sum>k<2 * n + 1. (- 1) ^ k * (1 / real (k * 2 + 1) * x ^ (k * 2 + 1))}"
    by blast
  then have "arctan x
            \<in> {\<Sum>k<2 * n. (- 1) ^ k * (1 / real (k * 2 + 1) * x ^ (k * 2 + 1)) ..
               \<Sum>k<2 * n + 1. (- 1) ^ k * (1 / real (k * 2 + 1) * x ^ (k * 2 + 1))}"
    by (simp only: arctan_series [OF ax])
  then show "(\<Sum>k<2 * n. (- 1) ^ k * (1 / real (k * 2 + 1) * x ^ (k * 2 + 1))) \<le> arctan x"
    and "arctan x \<le> (\<Sum>k<2 * n + 1. (- 1) ^ k * (1 / real (k * 2 + 1) * x ^ (k * 2 + 1)))"
    by simp_all
qed

lemma pi_above_np_pi: "np_pi + 12 / 10 ^ 17 \<le> pi"
proof -
  have lo: "(\<Sum>k<2 * 7. (- 1) ^ k * (1 / real (k * 2 + 1) * (1 / 5) ^ (k * 2 + 1)))
              \<le> arctan (1 / 5 :: real)"
    by (rule arctan_series_bounds(1)) simp_all
  have hi: "arctan (1 / 239 :: real)
              \<le> (\<Sum>k<2 * 2 + 1. (- 1) ^ k * (1 / real (k * 2 + 1) * (1 / 239) ^ (k * 2 + 1)))"
    by (rule arctan_series_bounds(2)) simp_all
  have "pi = 16 * arctan (1 / 5) - 4 * arctan (1 / 239)"
    using machin by simp
  with lo hi have
    "16 * (\<Sum>k<2 * 7. (- 1) ^ k * (1 / real (k * 2 + 1) * (1 / 5) ^ (k * 2 + 1)))
       - 4 * (\<Sum>k<2 * 2 + 1. (- 1) ^ k * (1 / real (k * 2 + 1) * (1 / 239) ^ (k * 2 + 1)))
     \<le> pi"
    by simp
  moreover have
    "np_pi + 12 / 10 ^ 17
       \<le> 16 * (\<Sum>k<2 * 7. (- 1) ^ k * (1 / real (k * 2 + 1) * (1 / 5) ^ (k * 2 + 1)))
         - 4 * (\<Sum>k<2 * 2 + 1. (- 1) ^ k * (1 / real (k * 2 + 1) * (1 / 239) ^ (k * 2 + 1)))"
    by (simp add: np_pi_def eval_nat_numeral)
  ultimately show ?thesis by simp
qed


lemma np_pi_range: "3 < np_pi" "np_pi < pi" "pi - np_pi \<le> 1"
proof -
  show 3: "3 < np_pi" by (simp add: np_pi_def)
  show "np_pi < pi" using pi_above_np_pi by simp
  show "pi - np_pi \<le> 1" using pi_less_4 3 by simp
qed

lemma sin_ge_half:
  fixes y :: real
  assumes "0 \<le> y" and "y \<le> 1"
  shows "y / 2 \<le> sin y"
proof -
  have pi3: "1 \<le> pi / 3" using np_pi_range(1,2) by simp
  have "sin 0 - 0 / 2 \<le> sin y - y / 2"
  proof (rule DERIV_nonneg_imp_nondecreasing [OF assms(1)])
    fix x :: real
    assume x: "0 \<le> x" "x \<le> y"
    have "cos (pi / 3) \<le> cos x"
      by (rule cos_monotone_0_pi_le) (use x assms(2) pi3 in simp_all)
    then have "0 \<le> cos x - 1 / 2" by (simp add: cos_60)
    moreover have "((\<lambda>x. sin x - x / 2) has_real_derivative cos x - 1 / 2) (at x)"
      by (auto intro!: derivative_eq_intros)
    ultimately show "\<exists>d. ((\<lambda>x. sin x - x / 2) has_real_derivative d) (at x) \<and> 0 \<le> d"
      by blast
  qed
  then show ?thesis by simp
qed

lemma sin_np_pi: "6 / 10 ^ 17 \<le> sin np_pi" "sin np_pi \<le> 43 / 50"
proof -
  have y: "12 / 10 ^ 17 \<le> pi - np_pi" using pi_above_np_pi by simp
  have y0: "0 \<le> pi - np_pi" using np_pi_range(2) by simp
  have y1: "pi - np_pi \<le> 1" by (rule np_pi_range(3))
  have s: "sin np_pi = sin (pi - np_pi)" by simp
  have "(pi - np_pi) / 2 \<le> sin (pi - np_pi)"
    by (rule sin_ge_half [OF y0 y1])
  with y show "6 / 10 ^ 17 \<le> sin np_pi" by (simp only: s) simp
  have "sin (pi - np_pi) \<le> pi - np_pi" by (rule sin_x_le_x [OF y0])
  moreover have "pi - np_pi \<le> 43 / 50" using pi_less_4 by (simp add: np_pi_def)
  ultimately show "sin np_pi \<le> 43 / 50" by (simp only: s)
qed

lemma cos_np_pi: "1 / 4 \<le> (cos np_pi)\<^sup>2"
proof -
  have "0 \<le> sin np_pi" using sin_np_pi(1) by simp
  with sin_np_pi(2) have "(sin np_pi)\<^sup>2 \<le> (43 / 50)\<^sup>2"
    by (intro power_mono) simp_all
  moreover have "(cos np_pi)\<^sup>2 = 1 - (sin np_pi)\<^sup>2"
    by (simp add: cos_squared_eq)
  ultimately show ?thesis by (simp add: power2_eq_square)
qed

subsection \<open>The cells of the field on doubles\<close>

lemma map_map_table:
  "map (map f) (map (\<lambda>y. map (g y) xs) ys) = map (\<lambda>y. map (\<lambda>x. f (g y x)) xs) ys"
  by (simp add: comp_def)

lemma directional_E_fp_table:
  assumes "linspace 0 np_pi samples = Inr theta" and "linspace 0 (2 * np_pi) samples = Inr phi"
  shows "directional_E_cubic_from_S_fp S11 S12 S44 samples =
           Inr (map (\<lambda>p. map (\<lambda>t. E_of_I2_fp S11 S12 S44
                                    (I2_cell (sin t * cos p) (sin t * sin p) (cos t))) theta) phi,
                map (\<lambda>p. map (\<lambda>t. sin t * cos p) theta) phi,
                map (\<lambda>p. map (\<lambda>t. sin t * sin p) theta) phi,
                map (\<lambda>p. map (\<lambda>t. cos t) theta) phi)"
proof -
  define T where "T = map (\<lambda>p::real. theta) phi"
  define P where "P = map (\<lambda>p. map (\<lambda>t::real. p) theta) phi"
  have grid: "angular_grid_fp samples = Inr (theta, phi, T, P)"
    by (simp add: angular_grid_fp_def assms meshgrid_def T_def P_def)
  have sinT: "ufunc sin T = map (\<lambda>p. map (\<lambda>t. sin t) theta) phi"
    by (simp add: T_def ufunc_rows)
  have cosT: "ufunc cos T = map (\<lambda>p. map (\<lambda>t. cos t) theta) phi"
    by (simp add: T_def ufunc_rows)
  have sinP: "ufunc sin P = map (\<lambda>p. map (\<lambda>t. sin p) theta) phi"
    by (simp add: P_def ufunc_table)
  have cosP: "ufunc cos P = map (\<lambda>p. map (\<lambda>t. cos p) theta) phi"
    by (simp add: P_def ufunc_table)
  have ax: "ufunc2 (*) (ufunc sin T) (ufunc cos P) = map (\<lambda>p. map (\<lambda>t. sin t * cos p) theta) phi"
    by (simp only: sinT cosP ufunc2_table)
  have ay: "ufunc2 (*) (ufunc sin T) (ufunc sin P) = map (\<lambda>p. map (\<lambda>t. sin t * sin p) theta) phi"
    by (simp only: sinT sinP ufunc2_table)
  have I2: "ufunc2 (+)
              (ufunc2 (+)
                 (ufunc2 (*) (ufunc (\<lambda>x. x\<^sup>2) (ufunc2 (*) (ufunc sin T) (ufunc cos P)))
                    (ufunc (\<lambda>x. x\<^sup>2) (ufunc2 (*) (ufunc sin T) (ufunc sin P))))
                 (ufunc2 (*) (ufunc (\<lambda>x. x\<^sup>2) (ufunc2 (*) (ufunc sin T) (ufunc sin P)))
                    (ufunc (\<lambda>x. x\<^sup>2) (ufunc cos T))))
              (ufunc2 (*) (ufunc (\<lambda>x. x\<^sup>2) (ufunc cos T))
                 (ufunc (\<lambda>x. x\<^sup>2) (ufunc2 (*) (ufunc sin T) (ufunc cos P))))
            = map (\<lambda>p. map (\<lambda>t. I2_cell (sin t * cos p) (sin t * sin p) (cos t)) theta) phi"
    by (simp only: ax ay cosT ufunc_table ufunc2_table I2_cell_def Let_def)
  show ?thesis
    unfolding directional_E_cubic_from_S_fp_def
    by (simp only: grid sum.case prod.case Let_def I2 map_map_table)
       (simp only: ax ay cosT E_of_I2_fp_def Let_def)
qed

lemma directional_E_fp_closed:
  assumes "2 \<le> samples"
  shows "directional_E_cubic_from_S_fp S11 S12 S44 samples =
           Inr (table (nat samples) (\<lambda>i j.
                  E_of_I2_fp S11 S12 S44
                    (I2_cell
                       (sin (real j * np_pi / real (nat samples - 1))
                          * cos (real i * (2 * np_pi) / real (nat samples - 1)))
                       (sin (real j * np_pi / real (nat samples - 1))
                          * sin (real i * (2 * np_pi) / real (nat samples - 1)))
                       (cos (real j * np_pi / real (nat samples - 1))))),
                table (nat samples) (\<lambda>i j.
                  sin (real j * np_pi / real (nat samples - 1))
                    * cos (real i * (2 * np_pi) / real (nat samples - 1))),
                table (nat samples) (\<lambda>i j.
                  sin (real j * np_pi / real (nat samples - 1))
                    * sin (real i * (2 * np_pi) / real (nat samples - 1))),
                table (nat samples) (\<lambda>i j. cos (real j * np_pi / real (nat samples - 1))))"
proof -
  have th: "linspace 0 np_pi samples
              = Inr (map (\<lambda>j. real j * np_pi / real (nat samples - 1)) [0..<nat samples])"
    using linspace_closed [OF assms, of 0 np_pi] by simp
  have ph: "linspace 0 (2 * np_pi) samples
              = Inr (map (\<lambda>i. real i * (2 * np_pi) / real (nat samples - 1)) [0..<nat samples])"
    using linspace_closed [OF assms, of 0 "2 * np_pi"] by simp
  show ?thesis
    by (simp only: directional_E_fp_table [OF th ph] table_of_maps)
qed

lemma fieldI_fp:
  assumes "directional_E_cubic_from_S_fp S11 S12 S44 samples = Inr (E, ax, ay, az)"
    and "P E ax ay az"
  shows "\<exists>E ax ay az.
           directional_E_cubic_from_S_fp S11 S12 S44 samples = Inr (E, ax, ay, az) \<and>
           P E ax ay az"
  using assms by blast

lemma I2_sphere_range:
  "0 \<le> I2_cell (sin t * cos p) (sin t * sin p) (cos t)"
  "I2_cell (sin t * cos p) (sin t * sin p) (cos t) \<le> 1 / 3"
  by (rule I2_cell_nonneg, rule I2_cell_le_third [OF unit_sphere_point])

lemma fl_Fin_le:
  assumes "\<bar>x\<bar> \<le> 10 * M" and "M \<le> 10 ^ 307"
  shows "fl x = Fin x"
proof -
  have "10 * M \<le> 10 * 10 ^ 307" using assms(2) by simp
  also have "\<dots> = (10::real) ^ 308" by simp
  finally have "\<bar>x\<bar> \<le> 10 ^ 308" using assms(1) by simp
  then show ?thesis by (rule fl_Fin)
qed

lemma E_of_I2_fp_in_range:
  assumes S: "\<bar>S11\<bar> \<le> 10 ^ 307" "\<bar>S12\<bar> \<le> 10 ^ 307" "\<bar>S44\<bar> \<le> 10 ^ 307"
    and x: "0 \<le> x" "x \<le> 1 / 3"
  shows "E_of_I2_fp S11 S12 S44 x = Fin (E_of_I2 S11 S12 S44 x)"
proof -
  define M :: real where "M = 10 ^ 307"
  define A where "A = S11 - S12 - 1 / 2 * S44"
  define m where "m = max (S11 - 2 * A * x) (1 / 10 ^ 16)"
  have M: "M \<le> 10 ^ 307" by (simp add: M_def)
  have M1: "1 \<le> M" unfolding M_def by (rule one_le_power) simp
  have S': "\<bar>S11\<bar> \<le> M" "\<bar>S12\<bar> \<le> M" "\<bar>S44\<bar> \<le> M"
    using S by (simp_all only: M_def)
  have A: "\<bar>A\<bar> \<le> 5 / 2 * M"
    using S' unfolding A_def by linarith
  have "\<bar>A * x\<bar> \<le> \<bar>A\<bar> * 1"
    unfolding abs_mult using x by (intro mult_left_mono) simp_all
  with A have Ax: "\<bar>A * x\<bar> \<le> 5 / 2 * M" by simp
  have t1: "fsub (Fin S11) (Fin S12) = Fin (S11 - S12)"
    unfolding fsub.simps by (rule fl_Fin_le [OF _ M]) (use S' in linarith)
  have t2: "fmul (Fin (1 / 2)) (Fin S44) = Fin (1 / 2 * S44)"
    unfolding fmul.simps by (rule fl_Fin_le [OF _ M]) (use S' in linarith)
  have t3: "fsub (Fin (S11 - S12)) (Fin (1 / 2 * S44)) = Fin A"
    unfolding fsub.simps A_def [symmetric] by (rule fl_Fin_le [OF _ M]) (use A M1 in linarith)
  have t4: "fmul (Fin 2) (Fin A) = Fin (2 * A)"
    unfolding fmul.simps by (rule fl_Fin_le [OF _ M]) (use A M1 in linarith)
  have t5: "fmul (Fin (2 * A)) (Fin x) = Fin (2 * A * x)"
    unfolding fmul.simps by (rule fl_Fin_le [OF _ M]) (use Ax M1 in \<open>simp add: mult.assoc\<close>)
  have t6: "fsub (Fin S11) (Fin (2 * A * x)) = Fin (S11 - 2 * A * x)"
    unfolding fsub.simps by (rule fl_Fin_le [OF _ M]) (use Ax S'(1) M1 in \<open>simp add: mult.assoc\<close>)
  have t7: "fmaximum (Fin (S11 - 2 * A * x)) (Fin (1 / 10 ^ 16)) = Fin m"
    by (simp only: fmaximum.simps m_def)
  have lo: "1 / 10 ^ 16 \<le> m" by (simp add: m_def)
  have pos: "0 < m" by (rule less_le_trans [OF _ lo]) simp
  have "1 / m \<le> 1 / (1 / 10 ^ 16)"
    by (rule divide_left_mono [OF lo]) (use pos in simp_all)
  then have "1 / m \<le> 10 ^ 16" by simp
  moreover have "0 < 1 / m" using pos by simp
  moreover have "(10::real) ^ 16 \<le> 10 ^ 308" by (rule power_increasing) simp_all
  ultimately have "\<bar>1 / m\<bar> \<le> 10 ^ 308"
    by (simp only: abs_le_iff) linarith
  then have "fl (1 / m) = Fin (1 / m)" by (rule fl_Fin)
  with pos have t8: "fdiv (Fin 1) (Fin m) = Fin (1 / m)" by simp
  have "E_of_I2_fp S11 S12 S44 x = Fin (1 / m)"
    unfolding E_of_I2_fp_def Let_def A_def [symmetric]
    by (simp only: t1 t2 t3 t4 t5 t6 t7 t8 A_def [symmetric])
  moreover have "E_of_I2 S11 S12 S44 x = 1 / m"
    by (simp add: E_of_I2_def Let_def m_def A_def)
  ultimately show ?thesis by simp
qed

lemma fp_cell_positive:
  assumes "\<bar>S11\<bar> \<le> 10 ^ 307" "\<bar>S12\<bar> \<le> 10 ^ 307" "\<bar>S44\<bar> \<le> 10 ^ 307"
  shows "\<exists>e. E_of_I2_fp S11 S12 S44 (I2_cell (sin t * cos p) (sin t * sin p) (cos t)) = Fin e
             \<and> 0 < e \<and> e \<le> 10 ^ 16"
proof -
  have "E_of_I2_fp S11 S12 S44 (I2_cell (sin t * cos p) (sin t * sin p) (cos t))
          = Fin (E_of_I2 S11 S12 S44 (I2_cell (sin t * cos p) (sin t * sin p) (cos t)))"
    by (rule E_of_I2_fp_in_range [OF assms I2_sphere_range])
  with E_of_I2_bounds [of S11 S12 S44 "I2_cell (sin t * cos p) (sin t * sin p) (cos t)"]
  show ?thesis by blast
qed

lemma I2_at_np_pi:
  "9 / 10 ^ 34 \<le> I2_cell (sin np_pi * cos p) (sin np_pi * sin p) (cos np_pi)"
proof -
  define s c where "s = sin np_pi" and "c = cos np_pi"
  have s: "6 / 10 ^ 17 \<le> s" unfolding s_def by (rule sin_np_pi(1))
  have c: "1 / 4 \<le> c\<^sup>2" unfolding c_def by (rule cos_np_pi)
  have "(6 / 10 ^ 17)\<^sup>2 \<le> s\<^sup>2"
    by (rule power_mono [OF s]) simp
  then have s2: "36 / 10 ^ 34 \<le> s\<^sup>2" by (simp add: power2_eq_square)
  have "1 / 4 * (36 / 10 ^ 34) \<le> c\<^sup>2 * s\<^sup>2"
    by (rule mult_mono [OF c s2]) simp_all
  then have cs: "9 / 10 ^ 34 \<le> c\<^sup>2 * s\<^sup>2" by simp
  have "(s * sin p)\<^sup>2 * c\<^sup>2 + c\<^sup>2 * (s * cos p)\<^sup>2 = c\<^sup>2 * s\<^sup>2 * ((sin p)\<^sup>2 + (cos p)\<^sup>2)"
    by (simp only: power_mult_distrib distrib_left mult_ac)
  also have "\<dots> = c\<^sup>2 * s\<^sup>2"
    by (simp only: sin_cos_squared_add mult_1_right)
  finally have split: "(s * sin p)\<^sup>2 * c\<^sup>2 + c\<^sup>2 * (s * cos p)\<^sup>2 = c\<^sup>2 * s\<^sup>2" .
  have "0 \<le> (s * cos p)\<^sup>2 * (s * sin p)\<^sup>2" by simp
  with split have "c\<^sup>2 * s\<^sup>2
                  \<le> (s * cos p)\<^sup>2 * (s * sin p)\<^sup>2 + (s * sin p)\<^sup>2 * c\<^sup>2 + c\<^sup>2 * (s * cos p)\<^sup>2"
    by linarith
  with cs show ?thesis
    by (simp add: I2_cell_def Let_def s_def c_def)
qed

lemma E_of_I2_at_floor:
  assumes "S11 - 2 * (S11 - S12 - 1 / 2 * S44) * x \<le> 1 / 10 ^ 16"
  shows "E_of_I2 S11 S12 S44 x = 10 ^ 16"
proof -
  have "max (S11 - 2 * (S11 - S12 - 1 / 2 * S44) * x) (1 / 10 ^ 16) = 1 / 10 ^ 16"
    using assms by (rule max_absorb2)
  then have "E_of_I2 S11 S12 S44 x = 1 / (1 / 10 ^ 16)"
    by (simp only: E_of_I2_def Let_def)
  then show ?thesis by simp
qed

lemma E_of_I2_fp_overflow:
  "E_of_I2_fp (- (2 ^ 1023)) (2 ^ 1023) 0 0 = NaN"
  "0 < x \<Longrightarrow> E_of_I2_fp (- (2 ^ 1023)) (2 ^ 1023) 0 x = Fin 0"
proof -
  have t1: "fsub (Fin (- (2 ^ 1023))) (Fin (2 ^ 1023)) = NInf"
    by (simp add: fl_def overflow_threshold_def)
  have t2: "fmul (Fin (1 / 2)) (Fin 0) = Fin 0"
    by (simp add: fl_def overflow_threshold_def)
  have c: "fmul (Fin 2) (fsub (fsub (Fin (- (2 ^ 1023))) (Fin (2 ^ 1023)))
                            (fmul (Fin (1 / 2)) (Fin 0))) = NInf"
    by (simp only: t1 t2) simp
  show "E_of_I2_fp (- (2 ^ 1023)) (2 ^ 1023) 0 0 = NaN"
    unfolding E_of_I2_fp_def Let_def c by simp
  show "0 < x \<Longrightarrow> E_of_I2_fp (- (2 ^ 1023)) (2 ^ 1023) 0 x = Fin 0"
    unfolding E_of_I2_fp_def Let_def c by simp
qed

section \<open>Properties of the evaluator\<close>

text \<open>
  C1 (as stated) fails for finite doubles of very large magnitude.  With \<open>S11 = -2\<^sup>1\<^sup>0\<^sup>2\<^sup>3\<close>,
  \<open>S12 = 2\<^sup>1\<^sup>0\<^sup>2\<^sup>3\<close> (both finite doubles), \<open>S44 = 0\<close> and two samples, \<open>S11 - S12\<close> overflows to
  \<open>-inf\<close>; in the cell with \<open>theta = 0\<close>, where \<open>I2 = 0\<close>, the product \<open>-inf * 0\<close> is NaN, which
  \<open>np.maximum\<close> keeps, and in the cell with \<open>theta = np.pi\<close> the inverse modulus is \<open>+inf\<close> and
  the modulus is \<open>0\<close>.
\<close>

theorem modulus_overflow_counterexample:
  "(2::real) ^ 1023 < overflow_threshold \<and>
   fst (projr (directional_E_cubic_from_S_fp (- (2 ^ 1023)) (2 ^ 1023) 0 2)) ! 0 ! 0 = NaN \<and>
   fst (projr (directional_E_cubic_from_S_fp (- (2 ^ 1023)) (2 ^ 1023) 0 2)) ! 0 ! 1 = Fin 0"
proof -
  have two: "(2::int) \<le> 2" by simp
  have fin: "(2::real) ^ 1023 < overflow_threshold"
    by (simp add: overflow_threshold_def)
  have pole: "I2_cell (sin (real (0::nat) * np_pi / real (nat 2 - 1))
                         * cos (real (0::nat) * (2 * np_pi) / real (nat 2 - 1)))
                      (sin (real (0::nat) * np_pi / real (nat 2 - 1))
                         * sin (real (0::nat) * (2 * np_pi) / real (nat 2 - 1)))
                      (cos (real (0::nat) * np_pi / real (nat 2 - 1))) = 0"
    by (simp add: I2_cell_def)
  have "9 / 10 ^ 34 \<le> I2_cell (sin np_pi * cos 0) (sin np_pi * sin 0) (cos np_pi)"
    by (rule I2_at_np_pi)
  then have far: "0 < I2_cell (sin (real (1::nat) * np_pi / real (nat 2 - 1))
                         * cos (real (0::nat) * (2 * np_pi) / real (nat 2 - 1)))
                      (sin (real (1::nat) * np_pi / real (nat 2 - 1))
                         * sin (real (0::nat) * (2 * np_pi) / real (nat 2 - 1)))
                      (cos (real (1::nat) * np_pi / real (nat 2 - 1)))"
    by simp
  have i: "(0::nat) < nat 2" and j: "(1::nat) < nat 2" by simp_all
  show ?thesis
    unfolding directional_E_fp_closed [OF two] sum.sel fst_conv
      table_nth [OF i i] table_nth [OF i j] pole
      E_of_I2_fp_overflow(1) E_of_I2_fp_overflow(2) [OF far]
    using fin by simp
qed

text \<open>
  C1 (amended).  For all doubles \<open>S11\<close>, \<open>S12\<close>, \<open>S44\<close> of magnitude at most \<open>10\<^sup>3\<^sup>0\<^sup>7\<close>, so that
  no intermediate result overflows, and every \<open>samples \<ge> 2\<close>, the evaluator returns a field of
  shape \<open>(samples, samples)\<close> whose every entry is a finite number, strictly positive and at
  most \<open>10\<^sup>1\<^sup>6\<close>, the reciprocal of the floor: the floor keeps the divisor at or above
  \<open>10\<^sup>-\<^sup>1\<^sup>6\<close>.
\<close>

theorem modulus_field_positive_finite:
  assumes "2 \<le> samples"
    and "\<bar>S11\<bar> \<le> 10 ^ 307" and "\<bar>S12\<bar> \<le> 10 ^ 307" and "\<bar>S44\<bar> \<le> 10 ^ 307"
  shows "\<exists>E ax ay az.
           directional_E_cubic_from_S_fp S11 S12 S44 samples = Inr (E, ax, ay, az) \<and>
           length E = nat samples \<and>
           (\<forall>i<nat samples.
              length (E ! i) = nat samples \<and>
              (\<forall>j<nat samples. \<exists>e. E ! i ! j = Fin e \<and> 0 < e \<and> e \<le> 10 ^ 16))"
  apply (rule fieldI_fp [OF directional_E_fp_closed [OF assms(1)]])
  apply (intro conjI allI impI)
    apply (simp only: length_table)
   apply (simp only: length_table_row)
  apply (simp only: table_nth)
  apply (rule fp_cell_positive [OF assms(2-4)])
  done

theorem modulus_field_positive_finite_witness:
  "\<exists>E ax ay az.
     directional_E_cubic_from_S_fp (14928 / 10 ^ 6) (- 6259 / 10 ^ 6) (13280 / 10 ^ 6) 50
       = Inr (E, ax, ay, az) \<and>
     length E = 50 \<and> length (E ! 0) = 50 \<and>
     (\<exists>e. E ! 0 ! 0 = Fin e \<and> 0 < e \<and> e \<le> 10 ^ 16)"
proof -
  have one: "(1::real) \<le> 10 ^ 307" by (rule one_le_power) simp
  have "(2::int) \<le> 50" and "\<bar>14928 / 10 ^ 6 :: real\<bar> \<le> 10 ^ 307"
    and "\<bar>- 6259 / 10 ^ 6 :: real\<bar> \<le> 10 ^ 307" and "\<bar>13280 / 10 ^ 6 :: real\<bar> \<le> 10 ^ 307"
    using one by simp_all
  from modulus_field_positive_finite [OF this]
  obtain E ax ay az where
    res: "directional_E_cubic_from_S_fp (14928 / 10 ^ 6) (- 6259 / 10 ^ 6) (13280 / 10 ^ 6) 50
            = Inr (E, ax, ay, az)"
    and len: "length E = nat 50"
    and cells: "\<forall>i<nat 50.
              length (E ! i) = nat 50 \<and>
              (\<forall>j<nat 50. \<exists>e. E ! i ! j = Fin e \<and> 0 < e \<and> e \<le> 10 ^ 16)"
    by blast
  have "(0::nat) < nat 50" and "nat 50 = 50" by simp_all
  with len cells have "length E = 50 \<and> length (E ! 0) = 50 \<and>
     (\<exists>e. E ! 0 ! 0 = Fin e \<and> 0 < e \<and> e \<le> 10 ^ 16)"
    by metis
  with res show ?thesis by blast
qed

text \<open>
  C2.  For every \<open>samples \<ge> 2\<close> and every grid cell \<open>(i, j)\<close>, with \<open>theta\<^sub>j = j \<pi> / (samples - 1)\<close>
  and \<open>phi\<^sub>i = 2 i \<pi> / (samples - 1)\<close>, the returned components are
  \<open>n1 = sin theta\<^sub>j cos phi\<^sub>i\<close>, \<open>n2 = sin theta\<^sub>j sin phi\<^sub>i\<close>, \<open>n3 = cos theta\<^sub>j\<close>, and
  \<open>n1\<^sup>2 + n2\<^sup>2 + n3\<^sup>2 = 1\<close> exactly, in real arithmetic.
\<close>

theorem unit_direction_invariant:
  assumes "2 \<le> samples"
  shows "\<exists>E ax ay az.
           directional_E_cubic_from_S S11 S12 S44 samples = Inr (E, ax, ay, az) \<and>
           length ax = nat samples \<and> length ay = nat samples \<and> length az = nat samples \<and>
           (\<forall>i<nat samples.
              length (ax ! i) = nat samples \<and> length (ay ! i) = nat samples \<and>
              length (az ! i) = nat samples \<and>
              (\<forall>j<nat samples.
                 ax ! i ! j = sin (real j * pi / real (nat samples - 1))
                                * cos (real i * (2 * pi) / real (nat samples - 1)) \<and>
                 ay ! i ! j = sin (real j * pi / real (nat samples - 1))
                                * sin (real i * (2 * pi) / real (nat samples - 1)) \<and>
                 az ! i ! j = cos (real j * pi / real (nat samples - 1)) \<and>
                 (ax ! i ! j)\<^sup>2 + (ay ! i ! j)\<^sup>2 + (az ! i ! j)\<^sup>2 = 1))"
  unfolding directional_E_closed [OF assms]
  by (simp add: unit_sphere_point)

theorem unit_direction_invariant_witness:
  "\<exists>E ax ay az.
     directional_E_cubic_from_S 1 0 0 3 = Inr (E, ax, ay, az) \<and>
     ax ! 1 ! 1 = - 1 \<and> ay ! 1 ! 1 = 0 \<and> az ! 1 ! 1 = 0 \<and>
     (ax ! 1 ! 1)\<^sup>2 + (ay ! 1 ! 1)\<^sup>2 + (az ! 1 ! 1)\<^sup>2 = 1"
proof -
  have "(2::int) \<le> 3" by simp
  from unit_direction_invariant [OF this, of 1 0 0]
  obtain E ax ay az where
    res: "directional_E_cubic_from_S 1 0 0 3 = Inr (E, ax, ay, az)"
    and cells: "\<forall>i<nat 3.
              length (ax ! i) = nat 3 \<and> length (ay ! i) = nat 3 \<and>
              length (az ! i) = nat 3 \<and>
              (\<forall>j<nat 3.
                 ax ! i ! j = sin (real j * pi / real (nat 3 - 1))
                                * cos (real i * (2 * pi) / real (nat 3 - 1)) \<and>
                 ay ! i ! j = sin (real j * pi / real (nat 3 - 1))
                                * sin (real i * (2 * pi) / real (nat 3 - 1)) \<and>
                 az ! i ! j = cos (real j * pi / real (nat 3 - 1)) \<and>
                 (ax ! i ! j)\<^sup>2 + (ay ! i ! j)\<^sup>2 + (az ! i ! j)\<^sup>2 = 1)"
    by blast
  have one: "(1::nat) < nat 3" by simp
  from cells one have
    "ax ! 1 ! 1 = sin (real 1 * pi / real (nat 3 - 1))
                    * cos (real 1 * (2 * pi) / real (nat 3 - 1)) \<and>
     ay ! 1 ! 1 = sin (real 1 * pi / real (nat 3 - 1))
                    * sin (real 1 * (2 * pi) / real (nat 3 - 1)) \<and>
     az ! 1 ! 1 = cos (real 1 * pi / real (nat 3 - 1)) \<and>
     (ax ! 1 ! 1)\<^sup>2 + (ay ! 1 ! 1)\<^sup>2 + (az ! 1 ! 1)\<^sup>2 = 1"
    by blast
  then have "ax ! 1 ! 1 = - 1 \<and> ay ! 1 ! 1 = 0 \<and> az ! 1 ! 1 = 0 \<and>
      (ax ! 1 ! 1)\<^sup>2 + (ay ! 1 ! 1)\<^sup>2 + (az ! 1 ! 1)\<^sup>2 = 1"
    by simp
  with res show ?thesis by blast
qed

text \<open>
  C3 (as stated) fails below the floor: with \<open>S11 = 10\<^sup>-\<^sup>1\<^sup>7\<close>, \<open>S12 = 0\<close>, \<open>S44 = 2 10\<^sup>-\<^sup>1\<^sup>7\<close> the
  combination \<open>S11 - S12 - S44/2\<close> is zero and \<open>S11 > 0\<close>, yet every entry of the field is
  \<open>10\<^sup>1\<^sup>6\<close> and not \<open>1 / S11 = 10\<^sup>1\<^sup>7\<close>.
\<close>

theorem isotropic_below_floor_counterexample:
  "(1 / 10 ^ 17 - 0 - 1 / 2 * (2 / 10 ^ 17) = (0::real)) \<and> (0::real) < 1 / 10 ^ 17 \<and>
   directional_E_cubic_from_S (1 / 10 ^ 17) 0 (2 / 10 ^ 17) 2
     = Inr ([[10 ^ 16, 10 ^ 16], [10 ^ 16, 10 ^ 16]],
            [[0, 0], [0, 0]], [[0, 0], [0, 0]], [[1, - 1], [1, - 1]]) \<and>
   (10 ^ 16 :: real) \<noteq> 1 / (1 / 10 ^ 17)"
proof -
  have "(2::int) \<le> 2" by simp
  from directional_E_closed [OF this, of "1 / 10 ^ 17" 0 "2 / 10 ^ 17"]
  show ?thesis
    by (simp add: table_def numeral_2_eq_2 E_cell_def E_of_I2_def I2_cell_def)
qed

text \<open>
  C3 (amended).  If \<open>S11 - S12 - S44/2 = 0\<close> then for every \<open>samples \<ge> 2\<close> every entry of the
  returned field equals \<open>1 / max(S11, 10\<^sup>-\<^sup>1\<^sup>6)\<close>, the same value in all grid directions; it
  equals \<open>1 / S11\<close> whenever \<open>S11 \<ge> 10\<^sup>-\<^sup>1\<^sup>6\<close>.
\<close>

theorem isotropic_field_constant:
  assumes "2 \<le> samples" and "S11 - S12 - 1 / 2 * S44 = 0"
  shows "\<exists>E ax ay az.
           directional_E_cubic_from_S S11 S12 S44 samples = Inr (E, ax, ay, az) \<and>
           length E = nat samples \<and>
           (\<forall>i<nat samples.
              length (E ! i) = nat samples \<and>
              (\<forall>j<nat samples.
                 E ! i ! j = 1 / max S11 (1 / 10 ^ 16) \<and>
                 (1 / 10 ^ 16 \<le> S11 \<longrightarrow> E ! i ! j = 1 / S11)))"
proof -
  have iso: "E_cell S11 S12 S44 n1 n2 n3 = 1 / max S11 (1 / 10 ^ 16)" for n1 n2 n3
    by (simp only: E_cell_def E_of_I2_isotropic [OF assms(2)])
  have floor_off: "1 / 10 ^ 16 \<le> S11 \<longrightarrow> max S11 (1 / 10 ^ 16) = S11"
    by simp
  show ?thesis
    apply (rule fieldI [OF directional_E_closed [OF assms(1)]])
    apply (simp only: length_table iso simp_thms)
    using floor_off apply simp
    done
qed

theorem isotropic_field_constant_witness:
  "\<exists>E ax ay az.
     directional_E_cubic_from_S 2 1 2 3 = Inr (E, ax, ay, az) \<and>
     length E = 3 \<and> length (E ! 2) = 3 \<and> E ! 2 ! 1 = 1 / 2"
proof -
  have "(2::int) \<le> 3" and "(2::real) - 1 - 1 / 2 * 2 = 0" by simp_all
  from isotropic_field_constant [OF this]
  obtain E ax ay az where
    res: "directional_E_cubic_from_S 2 1 2 3 = Inr (E, ax, ay, az)"
    and len: "length E = nat 3"
    and cells: "\<forall>i<nat 3.
              length (E ! i) = nat 3 \<and>
              (\<forall>j<nat 3.
                 E ! i ! j = 1 / max 2 (1 / 10 ^ 16) \<and>
                 (1 / 10 ^ 16 \<le> (2::real) \<longrightarrow> E ! i ! j = 1 / 2))"
    by blast
  have "(2::nat) < nat 3" and "(1::nat) < nat 3" and "(1::real) / 10 ^ 16 \<le> 2" and "nat 3 = 3"
    by simp_all
  with cells len have "length E = 3 \<and> length (E ! 2) = 3 \<and> E ! 2 ! 1 = 1 / 2"
    by metis
  with res show ?thesis by blast
qed

text \<open>
  C4.  The modulus of a cell, computed through \<open>I2\<close>, the floor and the reciprocal, is
  invariant under cyclic permutation of the direction cosines and under a sign flip of any
  single one of them.  This holds for all triples, so in particular for unit vectors.
\<close>

theorem modulus_cubic_symmetry:
  "E_cell S11 S12 S44 n1 n2 n3 = E_cell S11 S12 S44 n2 n3 n1 \<and>
   E_cell S11 S12 S44 n1 n2 n3 = E_cell S11 S12 S44 n3 n1 n2 \<and>
   E_cell S11 S12 S44 (- n1) n2 n3 = E_cell S11 S12 S44 n1 n2 n3 \<and>
   E_cell S11 S12 S44 n1 (- n2) n3 = E_cell S11 S12 S44 n1 n2 n3 \<and>
   E_cell S11 S12 S44 n1 n2 (- n3) = E_cell S11 S12 S44 n1 n2 n3"
proof -
  have c1: "I2_cell n2 n3 n1 = I2_cell n1 n2 n3"
    by (rule I2_cell_cyclic)
  have "I2_cell n3 n1 n2 = I2_cell n2 n3 n1"
    by (rule I2_cell_cyclic)
  with c1 have c2: "I2_cell n3 n1 n2 = I2_cell n1 n2 n3"
    by simp
  show ?thesis
    by (simp only: E_cell_def c1 c2 I2_cell_flip simp_thms)
qed




text \<open>
  C6 (as stated) fails on the \<open>phi\<close> interval: the last \<open>phi\<close> sample is \<open>2 \<pi>\<close> itself.  With
  three samples \<open>phi\<close> is \<open>0, \<pi>, 2 \<pi>\<close>, not the half-open spacing \<open>0, 2 \<pi> / 3, 4 \<pi> / 3\<close>.
\<close>

theorem phi_endpoint_counterexample:
  "angular_grid 3
     = Inr ([0, pi / 2, pi], [0, pi, 2 * pi],
            [[0, pi / 2, pi], [0, pi / 2, pi], [0, pi / 2, pi]],
            [[0, 0, 0], [pi, pi, pi], [2 * pi, 2 * pi, 2 * pi]]) \<and>
   [0, pi, 2 * pi] \<noteq> [0, 2 * pi / 3, 4 * pi / 3] \<and>
   \<not> (last [0, pi, 2 * pi] < 2 * pi)"
  by (simp add: angular_grid_def linspace_def meshgrid_def Let_def numeral_3_eq_3)

text \<open>
  C6 (amended).  For \<open>samples \<ge> 2\<close>, \<open>theta\<close> is \<open>samples\<close> uniformly spaced values over the
  closed interval \<open>[0, \<pi>]\<close> and \<open>phi\<close> is \<open>samples\<close> uniformly spaced values over the closed
  interval \<open>[0, 2 \<pi>]\<close>, both endpoints included; the mesh pairs every \<open>theta\<close> with every
  \<open>phi\<close> in arrays of shape \<open>(samples, samples)\<close>, \<open>phi\<close> along the first axis and \<open>theta\<close>
  along the second.
\<close>

theorem angular_grid_layout:
  assumes "2 \<le> samples"
  shows "\<exists>theta phi T P.
           angular_grid samples = Inr (theta, phi, T, P) \<and>
           length theta = nat samples \<and> length phi = nat samples \<and>
           (\<forall>j<nat samples. theta ! j = real j * pi / real (nat samples - 1)) \<and>
           theta ! 0 = 0 \<and> theta ! (nat samples - 1) = pi \<and>
           (\<forall>i<nat samples. phi ! i = real i * (2 * pi) / real (nat samples - 1)) \<and>
           phi ! 0 = 0 \<and> phi ! (nat samples - 1) = 2 * pi \<and>
           length T = nat samples \<and> length P = nat samples \<and>
           (\<forall>i<nat samples.
              length (T ! i) = nat samples \<and> length (P ! i) = nat samples \<and>
              (\<forall>j<nat samples. T ! i ! j = theta ! j \<and> P ! i ! j = phi ! i))"
proof -
  have first: "0 < nat samples" and last: "nat samples - 1 < nat samples"
    using assms by simp_all
  have top: "real (nat samples - 1) * x / real (nat samples - 1) = x" for x
    by (rule last_sample [OF assms])
  show ?thesis
    apply (rule gridI [OF angular_grid_closed [OF assms]])
    using first last top apply simp
    done
qed

theorem angular_grid_layout_witness:
  "\<exists>theta phi T P.
     angular_grid 3 = Inr (theta, phi, T, P) \<and>
     length theta = 3 \<and> length phi = 3 \<and>
     theta ! 0 = 0 \<and> theta ! 2 = pi \<and> phi ! 0 = 0 \<and> phi ! 2 = 2 * pi \<and>
     length T = 3 \<and> length P = 3"
proof -
  have "(2::int) \<le> 3" by simp
  from angular_grid_layout [OF this] show ?thesis by simp blast
qed

section \<open>Properties of the command line and of the colours\<close>

text \<open>
  C7.  The program prints the stability warning if and only if at least one of \<open>S11 > 0\<close>,
  \<open>S44 > 0\<close>, \<open>S11 - S12 > 0\<close>, \<open>S11 + 2 S12 > 0\<close> fails.  The warning is not fatal: the field
  the program computes is the evaluator's field for \<open>(S11, S12, S44, samples)\<close> whether or
  not the warning is printed, and for \<open>samples \<ge> 2\<close> and a registered colormap the field is
  computed and its colours are produced.
\<close>

theorem main_warning_nonfatal:
  "(fst (main colormaps a) \<noteq> [] \<longleftrightarrow>
      \<not> (arg_S11 a > 0 \<and> arg_S44 a > 0 \<and> arg_S11 a - arg_S12 a > 0 \<and>
          arg_S11 a + 2 * arg_S12 a > 0)) \<and>
   fst (snd (main colormaps a))
     = directional_E_cubic_from_S (arg_S11 a) (arg_S12 a) (arg_S44 a) (arg_samples a) \<and>
   (2 \<le> arg_samples a \<and> colormaps (arg_cmap a) = Some cmap \<longrightarrow>
      (\<exists>E ax ay az colors.
         fst (snd (main colormaps a)) = Inr (E, ax, ay, az) \<and>
         snd (snd (main colormaps a)) = Inr colors \<and>
         plot_young_surface_colored colormaps E ax ay az
           (arg_material a @ '' - Young's Modulus (GPa)'') (arg_cmap a)
           (arg_material a @ '' - Young's Modulus (GPa)'') = Inr colors))"
proof (intro conjI impI)
  show "fst (main colormaps a) \<noteq> [] \<longleftrightarrow>
      \<not> (arg_S11 a > 0 \<and> arg_S44 a > 0 \<and> arg_S11 a - arg_S12 a > 0 \<and>
          arg_S11 a + 2 * arg_S12 a > 0)"
    by (simp add: main_def Let_def)
  show "fst (snd (main colormaps a))
     = directional_E_cubic_from_S (arg_S11 a) (arg_S12 a) (arg_S44 a) (arg_samples a)"
    by (simp add: main_def Let_def)
next
  assume h: "2 \<le> arg_samples a \<and> colormaps (arg_cmap a) = Some cmap"
  then have s: "2 \<le> arg_samples a" and cm: "colormaps (arg_cmap a) = Some cmap"
    by simp_all
  from s have pos: "0 < nat (arg_samples a)" by simp
  let ?t = "arg_material a @ '' - Young's Modulus (GPa)''"
  let ?E = "table (nat (arg_samples a)) (\<lambda>i j.
                  E_cell (arg_S11 a) (arg_S12 a) (arg_S44 a)
                    (sin (real j * pi / real (nat (arg_samples a) - 1))
                       * cos (real i * (2 * pi) / real (nat (arg_samples a) - 1)))
                    (sin (real j * pi / real (nat (arg_samples a) - 1))
                       * sin (real i * (2 * pi) / real (nat (arg_samples a) - 1)))
                    (cos (real j * pi / real (nat (arg_samples a) - 1))))"
  note field = directional_E_closed [OF s, of "arg_S11 a" "arg_S12 a" "arg_S44 a"]
  have ne: "concat ?E \<noteq> []"
    by (rule concat_table_nonempty [OF pos])
  from plot_total [where E = ?E and colormaps = colormaps and cmap_name = "arg_cmap a"
      and cmap = cmap and title = ?t and outfile = ?t, OF ne cm]
  show "\<exists>E ax ay az colors.
         fst (snd (main colormaps a)) = Inr (E, ax, ay, az) \<and>
         snd (snd (main colormaps a)) = Inr colors \<and>
         plot_young_surface_colored colormaps E ax ay az ?t (arg_cmap a) ?t = Inr colors"
    by (simp add: main_def Let_def field)
qed

theorem main_warning_nonfatal_witness:
  "fst (main [''turbo'' \<mapsto> (\<lambda>x::real. x)]
          \<lparr>arg_material = ''Cu'', arg_S11 = - 1, arg_S12 = 0, arg_S44 = 1,
           arg_samples = 2, arg_cmap = ''turbo''\<rparr>) \<noteq> [] \<and>
   (\<exists>E ax ay az colors.
      fst (snd (main [''turbo'' \<mapsto> (\<lambda>x::real. x)]
          \<lparr>arg_material = ''Cu'', arg_S11 = - 1, arg_S12 = 0, arg_S44 = 1,
           arg_samples = 2, arg_cmap = ''turbo''\<rparr>)) = Inr (E, ax, ay, az) \<and>
      snd (snd (main [''turbo'' \<mapsto> (\<lambda>x::real. x)]
          \<lparr>arg_material = ''Cu'', arg_S11 = - 1, arg_S12 = 0, arg_S44 = 1,
           arg_samples = 2, arg_cmap = ''turbo''\<rparr>)) = Inr colors)"
proof -
  let ?cm = "[''turbo'' \<mapsto> (\<lambda>x::real. x)]"
  let ?a = "\<lparr>arg_material = ''Cu'', arg_S11 = - 1, arg_S12 = 0, arg_S44 = 1,
           arg_samples = 2, arg_cmap = ''turbo''\<rparr>"
  note m = main_warning_nonfatal [of ?cm ?a "\<lambda>x. x"]
  have unstable: "\<not> (arg_S11 ?a > 0 \<and> arg_S44 ?a > 0 \<and> arg_S11 ?a - arg_S12 ?a > 0 \<and>
          arg_S11 ?a + 2 * arg_S12 ?a > 0)"
    by simp
  have run: "2 \<le> arg_samples ?a \<and> ?cm (arg_cmap ?a) = Some (\<lambda>x. x)"
    by simp
  have "fst (main ?cm ?a) \<noteq> []"
    by (rule m [THEN conjunct1, THEN iffD2, OF unstable])
  moreover
  from m [THEN conjunct2, THEN conjunct2, THEN mp, OF run]
  have "\<exists>E ax ay az colors.
      fst (snd (main ?cm ?a)) = Inr (E, ax, ay, az) \<and> snd (snd (main ?cm ?a)) = Inr colors"
    by blast
  ultimately show ?thesis by (intro conjI)
qed

text \<open>
  C8 (as stated) fails on the colour: when all entries of the field are equal the
  normalised value of every cell is \<open>0\<close>, so every cell gets the colormap's colour at \<open>0\<close>,
  its low end, and not the colour at the midpoint \<open>1/2\<close>.  With the colormap whose colour
  is the normalised value itself, the colours of a constant \<open>2 \<times> 2\<close> field are all \<open>0\<close>.
\<close>

theorem degenerate_range_counterexample:
  "plot_young_surface_colored [''turbo'' \<mapsto> (\<lambda>x::real. x)]
     [[5, 5], [5, 5]] [[0, 0], [0, 0]] [[0, 0], [0, 0]] [[1, - 1], [1, - 1]]
     ''Cu'' ''turbo'' ''Cu''
     = Inr [[0, 0], [0, 0]] \<and>
   (\<lambda>x::real. x) (1 / 2) \<noteq> (\<lambda>x::real. x) 0"
  by (simp add: plot_young_surface_colored_def amin_def amax_def Normalize_def ufunc_def)

text \<open>
  C8 (amended).  If the field has at least one entry and all its entries are equal, the
  colour normalisation raises no error and every grid cell gets one and the same colour,
  the colormap's colour at the normalised value \<open>0\<close>.
\<close>

theorem degenerate_range_colour:
  assumes "concat E \<noteq> []" and "\<forall>x\<in>set (concat E). x = v"
    and "colormaps cmap_name = Some cmap"
  shows "plot_young_surface_colored colormaps E ax ay az title cmap_name outfile
           = Inr (map (map (\<lambda>x. cmap 0)) E)"
  by (simp add: plot_young_surface_colored_def amin_amax_const [OF assms(1,2)] assms(3)
      Normalize_def ufunc_def comp_def)

theorem degenerate_range_colour_witness:
  "plot_young_surface_colored [''turbo'' \<mapsto> (\<lambda>x::real. (x, 1 - x))]
     [[7, 7, 7], [7, 7, 7]] [] [] [] ''Fe'' ''turbo'' ''Fe''
     = Inr [[(0, 1), (0, 1), (0, 1)], [(0, 1), (0, 1), (0, 1)]]"
proof -
  have "concat [[7, 7, 7], [7, 7, 7 :: real]] \<noteq> []"
    and "\<forall>x\<in>set (concat [[7, 7, 7], [7, 7, 7 :: real]]). x = 7"
    and "[''turbo'' \<mapsto> (\<lambda>x::real. (x, 1 - x))] ''turbo'' = Some (\<lambda>x. (x, 1 - x))"
    by simp_all
  from degenerate_range_colour
         [where E = "[[7, 7, 7], [7, 7, 7]]" and v = 7
            and colormaps = "[''turbo'' \<mapsto> (\<lambda>x::real. (x, 1 - x))]"
            and cmap_name = "''turbo''" and cmap = "\<lambda>x. (x, 1 - x)", OF this]
  show ?thesis by simp
qed

section \<open>The poles and the seam of the grid\<close>

text \<open>
  C9 (as stated) fails at \<open>theta = \<pi>\<close>: the last \<open>theta\<close> sample is the double \<open>np.pi\<close>, which
  lies below \<open>\<pi>\<close>, so \<open>sin(theta)\<close> is about \<open>1.2 10\<^sup>-\<^sup>1\<^sup>6\<close> and \<open>I2\<close> is about \<open>1.5 10\<^sup>-\<^sup>3\<^sup>2\<close>, not
  \<open>0\<close>.  With \<open>S11 = 1\<close>, \<open>S12 = -10\<^sup>3\<^sup>3\<close>, \<open>S44 = 0\<close> and three samples the inverse modulus in
  that cell is negative, the floor applies and the modulus is \<open>10\<^sup>1\<^sup>6\<close>, not \<open>1 / S11 = 1\<close>.
\<close>

theorem polar_np_pi_counterexample:
  "1 / 10 ^ 16 \<le> (1::real) \<and>
   fst (projr (directional_E_cubic_from_S_fp 1 (- (10 ^ 33)) 0 3)) ! 0 ! 2 = Fin (10 ^ 16) \<and>
   Fin (10 ^ 16) \<noteq> Fin (1 / max 1 (1 / 10 ^ 16))"
proof -
  have three: "(2::int) \<le> 3" by simp
  have i: "(0::nat) < nat 3" and j: "(2::nat) < nat 3" by simp_all
  define x where "x = I2_cell (sin np_pi * cos 0) (sin np_pi * sin 0) (cos np_pi)"
  have cell: "I2_cell (sin (real (2::nat) * np_pi / real (nat 3 - 1))
                         * cos (real (0::nat) * (2 * np_pi) / real (nat 3 - 1)))
                      (sin (real (2::nat) * np_pi / real (nat 3 - 1))
                         * sin (real (0::nat) * (2 * np_pi) / real (nat 3 - 1)))
                      (cos (real (2::nat) * np_pi / real (nat 3 - 1))) = x"
    by (simp add: x_def)
  have lo: "9 / 10 ^ 34 \<le> x" unfolding x_def by (rule I2_at_np_pi)
  have x0: "0 \<le> x" and x3: "x \<le> 1 / 3"
    unfolding x_def by (rule I2_sphere_range)+
  have small: "(1::real) \<le> 10 ^ 307" by (rule one_le_power) simp
  have "(10::real) ^ 33 \<le> 10 ^ 307" by (rule power_increasing) simp_all
  then have b: "\<bar>1 :: real\<bar> \<le> 10 ^ 307" "\<bar>- (10 ^ 33) :: real\<bar> \<le> 10 ^ 307"
    "\<bar>0 :: real\<bar> \<le> 10 ^ 307"
    using small by simp_all
  have fin: "E_of_I2_fp 1 (- (10 ^ 33)) 0 x = Fin (E_of_I2 1 (- (10 ^ 33)) 0 x)"
    by (rule E_of_I2_fp_in_range [OF b x0 x3])
  have "2 * (1 + 10 ^ 33) * (9 / 10 ^ 34) \<le> 2 * (1 + 10 ^ 33) * x"
    by (rule mult_left_mono [OF lo]) simp
  then have "1 - 2 * (1 - - (10 ^ 33) - 1 / 2 * 0) * x \<le> 1 / 10 ^ 16"
    by simp
  then have "E_of_I2 1 (- (10 ^ 33)) 0 x = 10 ^ 16"
    by (rule E_of_I2_at_floor)
  with fin have val: "E_of_I2_fp 1 (- (10 ^ 33)) 0 x = Fin (10 ^ 16)" by simp
  show ?thesis
    unfolding directional_E_fp_closed [OF three] sum.sel fst_conv table_nth [OF i j] cell val
    by simp
qed

text \<open>
  C9 (amended).  For \<open>samples \<ge> 2\<close> and doubles \<open>S11\<close>, \<open>S12\<close>, \<open>S44\<close> of magnitude at most
  \<open>10\<^sup>3\<^sup>0\<^sup>7\<close>: in the grid cells with \<open>theta = 0\<close> (second index \<open>0\<close>, for every first index) the
  direction is \<open>(0, 0, 1)\<close>, \<open>I2\<close> is \<open>0\<close> and the returned modulus is \<open>1 / max(S11, 10\<^sup>-\<^sup>1\<^sup>6)\<close>,
  which is \<open>1 / S11\<close> whenever \<open>S11 \<ge> 10\<^sup>-\<^sup>1\<^sup>6\<close>, whatever \<open>S12\<close> and \<open>S44\<close> are.  In the cells of
  the last \<open>theta\<close> sample (second index \<open>samples - 1\<close>) the angle is the double \<open>np.pi\<close>, whose
  sine is positive: the direction is \<open>(sin(np.pi) cos(phi), sin(np.pi) sin(phi), cos(np.pi))\<close>,
  \<open>I2\<close> is positive, and the modulus is the formula's value at that \<open>I2\<close>, which depends on
  \<open>S12\<close> and \<open>S44\<close>.
\<close>

theorem polar_modulus:
  assumes "2 \<le> samples"
    and "\<bar>S11\<bar> \<le> 10 ^ 307" and "\<bar>S12\<bar> \<le> 10 ^ 307" and "\<bar>S44\<bar> \<le> 10 ^ 307"
  shows "\<exists>E ax ay az.
           directional_E_cubic_from_S_fp S11 S12 S44 samples = Inr (E, ax, ay, az) \<and>
           0 < sin np_pi \<and>
           (\<forall>i<nat samples.
              ax ! i ! 0 = 0 \<and> ay ! i ! 0 = 0 \<and> az ! i ! 0 = 1 \<and>
              E ! i ! 0 = Fin (1 / max S11 (1 / 10 ^ 16)) \<and>
              (1 / 10 ^ 16 \<le> S11 \<longrightarrow> E ! i ! 0 = Fin (1 / S11)) \<and>
              ax ! i ! (nat samples - 1)
                = sin np_pi * cos (real i * (2 * np_pi) / real (nat samples - 1)) \<and>
              ay ! i ! (nat samples - 1)
                = sin np_pi * sin (real i * (2 * np_pi) / real (nat samples - 1)) \<and>
              az ! i ! (nat samples - 1) = cos np_pi \<and>
              0 < I2_cell (ax ! i ! (nat samples - 1)) (ay ! i ! (nat samples - 1))
                    (az ! i ! (nat samples - 1)) \<and>
              E ! i ! (nat samples - 1)
                = Fin (E_of_I2 S11 S12 S44
                         (I2_cell (ax ! i ! (nat samples - 1)) (ay ! i ! (nat samples - 1))
                            (az ! i ! (nat samples - 1)))))"
proof -
  have first: "0 < nat samples" and last: "nat samples - 1 < nat samples"
    using assms(1) by simp_all
  have top: "real (nat samples - 1) * np_pi / real (nat samples - 1) = np_pi"
    by (rule last_sample [OF assms(1)])
  have zero: "real (0::nat) * np_pi / real (nat samples - 1) = 0"
    by simp
  have s: "0 < sin np_pi"
    using sin_np_pi(1) by (rule less_le_trans [rotated]) simp
  have pole: "E_of_I2_fp S11 S12 S44 (I2_cell (sin 0 * cos p) (sin 0 * sin p) (cos 0))
                = Fin (1 / max S11 (1 / 10 ^ 16))" for p
  proof -
    have z: "I2_cell (sin 0 * cos p) (sin 0 * sin p) (cos 0) = 0"
      by (simp add: I2_cell_def)
    have "E_of_I2_fp S11 S12 S44 (I2_cell (sin 0 * cos p) (sin 0 * sin p) (cos 0))
            = Fin (E_of_I2 S11 S12 S44 (I2_cell (sin 0 * cos p) (sin 0 * sin p) (cos 0)))"
      by (rule E_of_I2_fp_in_range [OF assms(2-4) I2_sphere_range])
    then show ?thesis by (simp only: z E_of_I2_zero)
  qed
  have far: "E_of_I2_fp S11 S12 S44
               (I2_cell (sin np_pi * cos p) (sin np_pi * sin p) (cos np_pi))
             = Fin (E_of_I2 S11 S12 S44
                      (I2_cell (sin np_pi * cos p) (sin np_pi * sin p) (cos np_pi)))" for p
    by (rule E_of_I2_fp_in_range [OF assms(2-4) I2_sphere_range])
  have I2pos: "0 < I2_cell (sin np_pi * cos p) (sin np_pi * sin p) (cos np_pi)" for p
    using I2_at_np_pi [of p] by (rule less_le_trans [rotated]) simp
  have floor_off: "1 / 10 ^ 16 \<le> S11 \<longrightarrow> max S11 (1 / 10 ^ 16) = S11"
    by simp
  show ?thesis
    apply (rule fieldI_fp [OF directional_E_fp_closed [OF assms(1)]])
    apply (intro conjI allI impI s)
             apply (simp_all only: table_nth first last top zero pole far I2pos)
    using floor_off apply simp_all
    done
qed

theorem polar_modulus_witness:
  "\<exists>E ax ay az.
     directional_E_cubic_from_S_fp 2 (- 1 / 2) 3 4 = Inr (E, ax, ay, az) \<and>
     ax ! 1 ! 0 = 0 \<and> ay ! 1 ! 0 = 0 \<and> az ! 1 ! 0 = 1 \<and> E ! 1 ! 0 = Fin (1 / 2) \<and>
     az ! 1 ! 3 = cos np_pi \<and> 0 < I2_cell (ax ! 1 ! 3) (ay ! 1 ! 3) (az ! 1 ! 3) \<and>
     E ! 1 ! 3 = Fin (E_of_I2 2 (- 1 / 2) 3 (I2_cell (ax ! 1 ! 3) (ay ! 1 ! 3) (az ! 1 ! 3)))"
proof -
  have one: "(1::real) \<le> 10 ^ 307" by (rule one_le_power) simp
  have "(2::int) \<le> 4" and "\<bar>2 :: real\<bar> \<le> 10 ^ 307" and "\<bar>- 1 / 2 :: real\<bar> \<le> 10 ^ 307"
    and "\<bar>3 :: real\<bar> \<le> 10 ^ 307"
    using one by simp_all
  from polar_modulus [OF this]
  obtain E ax ay az where
    res: "directional_E_cubic_from_S_fp 2 (- 1 / 2) 3 4 = Inr (E, ax, ay, az)"
    and cells: "\<forall>i<nat 4.
              ax ! i ! 0 = 0 \<and> ay ! i ! 0 = 0 \<and> az ! i ! 0 = 1 \<and>
              E ! i ! 0 = Fin (1 / max 2 (1 / 10 ^ 16)) \<and>
              (1 / 10 ^ 16 \<le> (2::real) \<longrightarrow> E ! i ! 0 = Fin (1 / 2)) \<and>
              ax ! i ! (nat 4 - 1) = sin np_pi * cos (real i * (2 * np_pi) / real (nat 4 - 1)) \<and>
              ay ! i ! (nat 4 - 1) = sin np_pi * sin (real i * (2 * np_pi) / real (nat 4 - 1)) \<and>
              az ! i ! (nat 4 - 1) = cos np_pi \<and>
              0 < I2_cell (ax ! i ! (nat 4 - 1)) (ay ! i ! (nat 4 - 1)) (az ! i ! (nat 4 - 1)) \<and>
              E ! i ! (nat 4 - 1)
                = Fin (E_of_I2 2 (- 1 / 2) 3
                         (I2_cell (ax ! i ! (nat 4 - 1)) (ay ! i ! (nat 4 - 1))
                            (az ! i ! (nat 4 - 1))))"
    by blast
  have "(1::nat) < nat 4" and "(1::real) / 10 ^ 16 \<le> 2" and "nat 4 - 1 = 3"
    by simp_all
  with cells have
    "ax ! 1 ! 0 = 0 \<and> ay ! 1 ! 0 = 0 \<and> az ! 1 ! 0 = 1 \<and> E ! 1 ! 0 = Fin (1 / 2) \<and>
     az ! 1 ! 3 = cos np_pi \<and> 0 < I2_cell (ax ! 1 ! 3) (ay ! 1 ! 3) (az ! 1 ! 3) \<and>
     E ! 1 ! 3 = Fin (E_of_I2 2 (- 1 / 2) 3 (I2_cell (ax ! 1 ! 3) (ay ! 1 ! 3) (az ! 1 ! 3)))"
    by metis
  with res show ?thesis by blast
qed

text \<open>
  C10.  The \<open>phi\<close> samples start at \<open>0\<close> and end at \<open>2 \<pi>\<close>, which are the same direction:
  for \<open>samples \<ge> 2\<close> the first and the last row (first index \<open>0\<close> and \<open>samples - 1\<close>, the
  \<open>phi\<close> axis) of each returned array \<open>n1\<close>, \<open>n2\<close>, \<open>n3\<close> and \<open>E\<close> are identical in real arithmetic.
\<close>

theorem phi_seam_duplicated:
  assumes "2 \<le> samples"
  shows "(\<exists>theta phi T P.
            angular_grid samples = Inr (theta, phi, T, P) \<and>
            phi ! 0 = 0 \<and> phi ! (nat samples - 1) = 2 * pi) \<and>
         (\<exists>E ax ay az.
            directional_E_cubic_from_S S11 S12 S44 samples = Inr (E, ax, ay, az) \<and>
            ax ! 0 = ax ! (nat samples - 1) \<and> ay ! 0 = ay ! (nat samples - 1) \<and>
            az ! 0 = az ! (nat samples - 1) \<and> E ! 0 = E ! (nat samples - 1))"
proof
  have first: "0 < nat samples" and last: "nat samples - 1 < nat samples"
    using assms by simp_all
  have top: "real (nat samples - 1) * (2 * pi) / real (nat samples - 1) = 2 * pi"
    by (rule last_sample [OF assms])
  show "\<exists>theta phi T P.
            angular_grid samples = Inr (theta, phi, T, P) \<and>
            phi ! 0 = 0 \<and> phi ! (nat samples - 1) = 2 * pi"
    unfolding angular_grid_closed [OF assms]
    using first last top by simp
  show "\<exists>E ax ay az.
            directional_E_cubic_from_S S11 S12 S44 samples = Inr (E, ax, ay, az) \<and>
            ax ! 0 = ax ! (nat samples - 1) \<and> ay ! 0 = ay ! (nat samples - 1) \<and>
            az ! 0 = az ! (nat samples - 1) \<and> E ! 0 = E ! (nat samples - 1)"
    apply (rule fieldI [OF directional_E_closed [OF assms]])
    apply (simp only: table_row first last top)
    apply simp
    done
qed

theorem phi_seam_duplicated_witness:
  "(\<exists>theta phi T P.
      angular_grid 5 = Inr (theta, phi, T, P) \<and> phi ! 0 = 0 \<and> phi ! 4 = 2 * pi) \<and>
   (\<exists>E ax ay az.
      directional_E_cubic_from_S 1 0 0 5 = Inr (E, ax, ay, az) \<and>
      ax ! 0 = ax ! 4 \<and> ay ! 0 = ay ! 4 \<and> az ! 0 = az ! 4 \<and> E ! 0 = E ! 4)"
proof -
  have "(2::int) \<le> 5" by simp
  from phi_seam_duplicated [OF this, of 1 0 0] show ?thesis by simp
qed

end
